theory Spec2Isabelle
  imports
    Main
    "HOL-Library.Char_ord"
    "HOL-Library.List_Lexorder"
    "HOL-Library.Multiset"
    "HOL-Library.Product_Lexorder"
begin

section \<open>Conventions\<close>

text \<open>
  A Python \<open>str\<close> is a \<^typ>\<open>string\<close>; a character stands for the code point of the
  same number (U+0000 to U+00FF), so \<open>CHR 0xB2\<close> is SUPERSCRIPT TWO. Strings are compared
  code point by code point, which is the order of \<^typ>\<open>string\<close> here, of Python's \<open>str\<close>
  and of SQLite's TEXT under the BINARY collation. Python's \<open>int\<close> is \<^typ>\<open>int\<close>.
  An exception is a value: a function that can raise returns \<open>exn + 'a\<close>, with
  \<open>Inl\<close> for the exception.
\<close>

datatype exn =
    TimeoutExpired string
  | ValueError string
  | TypeError string
  | Exception string

text \<open>\<open>str(e)\<close>\<close>

fun exn_str :: "exn \<Rightarrow> string" where
  "exn_str (TimeoutExpired m) = m"
| "exn_str (ValueError m) = m"
| "exn_str (TypeError m) = m"
| "exn_str (Exception m) = m"


section \<open>Python strings\<close>

text \<open>
  The character classes of \<open>str\<close>, on the code points U+0000 to U+00FF.
  \<open>is_decimal\<close> is the class \<open>\d\<close> of \<open>re\<close> (the decimal digits, which \<open>int\<close> accepts);
  \<open>is_digit\<close> is the predicate behind \<open>str.isdigit\<close>, which also holds of the
  superscripts U+00B2, U+00B3 and U+00B9; \<open>is_space\<close> is \<open>str.isspace\<close>, the
  class \<open>\s\<close> and what \<open>str.strip\<close> removes.
\<close>

definition is_decimal :: "char \<Rightarrow> bool" where
  "is_decimal c \<longleftrightarrow> 48 \<le> (of_char c :: nat) \<and> (of_char c :: nat) \<le> 57"

definition is_digit :: "char \<Rightarrow> bool" where
  "is_digit c \<longleftrightarrow> is_decimal c \<or> (of_char c :: nat) \<in> {178, 179, 185}"

definition is_space :: "char \<Rightarrow> bool" where
  "is_space c \<longleftrightarrow> (of_char c :: nat) \<in> {9, 10, 11, 12, 13, 28, 29, 30, 31, 32, 133, 160}"

text \<open>\<open>str.lower\<close>: A to Z, and U+00C0 to U+00DE except the multiplication sign.\<close>

definition lower_char :: "char \<Rightarrow> char" where
  "lower_char c =
     (let n = (of_char c :: nat)
      in if (65 \<le> n \<and> n \<le> 90) \<or> (192 \<le> n \<and> n \<le> 222 \<and> n \<noteq> 215) then char_of (n + 32) else c)"

definition lower :: "string \<Rightarrow> string" where
  "lower s = map lower_char s"

text \<open>\<open>s.isdigit()\<close>: false on the empty string.\<close>

definition isdigit :: "string \<Rightarrow> bool" where
  "isdigit s \<longleftrightarrow> s \<noteq> [] \<and> list_all is_digit s"

definition strip :: "string \<Rightarrow> string" where
  "strip s = rev (dropWhile is_space (rev (dropWhile is_space s)))"

text \<open>\<open>s.replace(old, new)\<close> for one-character \<open>old\<close> and \<open>new\<close>.\<close>

definition replace :: "char \<Rightarrow> char \<Rightarrow> string \<Rightarrow> string" where
  "replace old new s = map (\<lambda>c. if c = old then new else c) s"

text \<open>\<open>sub in s\<close>\<close>

fun contains :: "string \<Rightarrow> string \<Rightarrow> bool" where
  "contains sub [] \<longleftrightarrow> sub = []"
| "contains sub (c # cs) \<longleftrightarrow> take (length sub) (c # cs) = sub \<or> contains sub cs"

text \<open>\<open>s.split(sep)\<close> for a one-character separator: never an empty list.\<close>

fun split :: "char \<Rightarrow> string \<Rightarrow> string list" where
  "split sep [] = [[]]"
| "split sep (c # cs) =
     (case split sep cs of
        [] \<Rightarrow> [[c]]
      | piece # pieces \<Rightarrow> if c = sep then [] # piece # pieces else (c # piece) # pieces)"

text \<open>
  The value of a run of decimal digits, and \<open>int(s)\<close> for a string \<open>s\<close> that passed
  \<open>isdigit\<close>: such a string has no sign, blank or underscore, so \<open>int\<close> accepts it
  exactly when every character is a decimal digit, and raises \<open>ValueError\<close> otherwise.
\<close>

definition digits_value :: "string \<Rightarrow> int" where
  "digits_value s = fold (\<lambda>c n. 10 * n + (int (of_char c) - 48)) s 0"

definition py_int :: "string \<Rightarrow> exn + int" where
  "py_int s =
     (if s \<noteq> [] \<and> list_all is_decimal s then Inr (digits_value s)
      else Inl (ValueError (''invalid literal for int() with base 10: '' @ [CHR 0x27] @ s @ [CHR 0x27])))"

text \<open>\<open>str(n)\<close> for a natural number.\<close>

fun str_nat :: "nat \<Rightarrow> string" where
  "str_nat n = (if n < 10 then [char_of (48 + n)] else str_nat (n div 10) @ [char_of (48 + n mod 10)])"

declare str_nat.simps [simp del]

text \<open>
  \<open>re.search\<close>: the leftmost position at which the pattern matches. The argument \<open>m\<close>
  matches the pattern at the start of a string and gives the captured group.
\<close>

fun re_search :: "(string \<Rightarrow> 'a option) \<Rightarrow> string \<Rightarrow> 'a option" where
  "re_search m [] = m []"
| "re_search m (c # cs) = (case m (c # cs) of Some g \<Rightarrow> Some g | None \<Rightarrow> re_search m cs)"


section \<open>core/sites/base.py: the value objects\<close>

text \<open>
  \<open>metadata\<close> is an \<open>Optional[Dict[str, Any]]\<close>: an association list over a type \<open>'v\<close>
  of values that the code never inspects.
\<close>

record 'v gallery_info =
  gi_id :: string
  gi_title :: string
  gi_url :: string
  gi_tags :: "string list"
  gi_artist :: "string option"
  gi_pages :: "int option"
  gi_description :: "string option"
  gi_thumbnail_url :: "string option"
  gi_metadata :: "(string \<times> 'v) list option"

record 'v search_result =
  sr_galleries :: "'v gallery_info list"
  sr_total_count :: int
  sr_current_page :: int
  sr_total_pages :: int
  sr_has_next :: bool


section \<open>core/history.py\<close>

text \<open>
  One row of the table \<open>downloads\<close>. The column \<open>metadata\<close> holds the JSON text or NULL.
\<close>

record history_entry =
  he_id :: int
  he_gallery_id :: string
  he_title :: string
  he_url :: string
  he_download_path :: string
  he_downloaded_at :: string
  he_files_count :: int
  he_site :: string
  he_metadata :: "string option"

text \<open>
  The database: the rows of \<open>downloads\<close> in rowid order, and the counter that
  \<open>AUTOINCREMENT\<close> keeps in \<open>sqlite_sequence\<close> (the largest rowid ever handed out, which
  survives \<open>DELETE\<close>). Every method opens its own connection and commits on leaving the
  \<open>with\<close> block, so a method is a function from the database to the database.
  Faults of the storage layer itself (an unreadable file, a locked database) are not part
  of this model.
\<close>

record history_db =
  db_rows :: "history_entry list"
  db_seq :: int

definition empty_db :: history_db where
  "empty_db = \<lparr>db_rows = [], db_seq = 0\<rparr>"

text \<open>\<open>WHERE gallery_id = ? AND site = ?\<close>\<close>

definition rows_for :: "history_db \<Rightarrow> string \<Rightarrow> string \<Rightarrow> history_entry list" where
  "rows_for db gallery_id site =
     filter (\<lambda>r. he_gallery_id r = gallery_id \<and> he_site r = site) (db_rows db)"

definition is_downloaded :: "history_db \<Rightarrow> string \<Rightarrow> string \<Rightarrow> bool" where
  "is_downloaded db gallery_id site \<longleftrightarrow> 0 < length (rows_for db gallery_id site)"

text \<open>
  \<open>ORDER BY downloaded_at DESC LIMIT 1\<close>: a row with the greatest timestamp. SQL leaves
  the choice among equal timestamps open; the model takes the first such row in rowid order.
\<close>

fun latest :: "history_entry \<Rightarrow> history_entry list \<Rightarrow> history_entry" where
  "latest best [] = best"
| "latest best (r # rs) =
     latest (if he_downloaded_at best < he_downloaded_at r then r else best) rs"

definition get_download_id :: "history_db \<Rightarrow> string \<Rightarrow> string \<Rightarrow> int option" where
  "get_download_id db gallery_id site =
     (case rows_for db gallery_id site of
        [] \<Rightarrow> None
      | r # rs \<Rightarrow> Some (he_id (latest r rs)))"

text \<open>The rowid that \<open>INSERT\<close> gives to a new row of an \<open>AUTOINCREMENT\<close> table.\<close>

definition next_rowid :: "history_db \<Rightarrow> int" where
  "next_rowid db = fold max (map he_id (db_rows db)) (db_seq db) + 1"

text \<open>
  \<open>add_download\<close>. \<open>json_dumps\<close> is \<open>json.dumps\<close>, which raises on a value it cannot
  serialise; \<open>now\<close> is \<open>datetime.now().isoformat()\<close>. An empty dictionary is falsy, as
  \<open>None\<close> is. The result is what the method returns (the first branch returns an
  \<open>Optional[int]\<close>) and the database it leaves.
\<close>

definition add_download ::
  "((string \<times> 'v) list \<Rightarrow> exn + string) \<Rightarrow> history_db \<Rightarrow> 'v gallery_info \<Rightarrow> string \<Rightarrow> int \<Rightarrow>
     string \<Rightarrow> string \<Rightarrow> exn + (int option \<times> history_db)" where
  "add_download json_dumps db gallery_info download_path files_count site now =
     (if is_downloaded db (gi_id gallery_info) site
      then Inr (get_download_id db (gi_id gallery_info) site, db)
      else
        case (case gi_metadata gallery_info of
                None \<Rightarrow> Inr None
              | Some [] \<Rightarrow> Inr None
              | Some (kv # kvs) \<Rightarrow> map_sum id Some (json_dumps (kv # kvs))) of
          Inl e \<Rightarrow> Inl e
        | Inr metadata_json \<Rightarrow>
            let lastrowid = next_rowid db in
            Inr (Some lastrowid,
                 \<lparr>db_rows = db_rows db @
                    [\<lparr>he_id = lastrowid,
                      he_gallery_id = gi_id gallery_info,
                      he_title = gi_title gallery_info,
                      he_url = gi_url gallery_info,
                      he_download_path = download_path,
                      he_downloaded_at = now,
                      he_files_count = files_count,
                      he_site = site,
                      he_metadata = metadata_json\<rparr>],
                  db_seq = lastrowid\<rparr>))"

definition clear_history :: "history_db \<Rightarrow> history_db" where
  "clear_history db = db\<lparr>db_rows := []\<rparr>"

text \<open>
  \<open>get_stats\<close>. \<open>SUM\<close> over no rows is NULL, which Python reads as \<open>None\<close>; \<open>x or 0\<close> is
  \<open>0\<close> when \<open>x\<close> is \<open>None\<close> or \<open>0\<close>. \<open>cutoff\<close> is the text that SQLite's
  \<open>datetime('now', '-7 days')\<close> evaluates to. \<open>by_site\<close> is the dictionary built from the
  \<open>GROUP BY\<close> rows.
\<close>

record stats =
  total_downloads :: int
  total_files :: int
  by_site :: "string \<rightharpoonup> int"
  recent_downloads :: int

definition sql_sum :: "int list \<Rightarrow> int option" where
  "sql_sum xs = (if xs = [] then None else Some (sum_list xs))"

definition or_zero :: "int option \<Rightarrow> int" where
  "or_zero x = (case x of None \<Rightarrow> 0 | Some v \<Rightarrow> if v = 0 then 0 else v)"

definition get_stats :: "history_db \<Rightarrow> string \<Rightarrow> stats" where
  "get_stats db cutoff =
     \<lparr>total_downloads = int (length (db_rows db)),
      total_files = or_zero (sql_sum (map he_files_count (db_rows db))),
      by_site = (\<lambda>s. if s \<in> he_site ` set (db_rows db)
                       then Some (int (length (filter (\<lambda>r. he_site r = s) (db_rows db))))
                       else None),
      recent_downloads = int (length (filter (\<lambda>r. cutoff \<le> he_downloaded_at r) (db_rows db)))\<rparr>"

text \<open>Recording a list of downloads one after the other, as successive calls do.\<close>

fun add_downloads ::
  "((string \<times> 'v) list \<Rightarrow> exn + string) \<Rightarrow> history_db \<Rightarrow>
     ('v gallery_info \<times> string \<times> int \<times> string \<times> string) list \<Rightarrow> exn + history_db" where
  "add_downloads json_dumps db [] = Inr db"
| "add_downloads json_dumps db ((g, path, n, site, now) # calls) =
     (case add_download json_dumps db g path n site now of
        Inl e \<Rightarrow> Inl e
      | Inr (_, db') \<Rightarrow> add_downloads json_dumps db' calls)"


section \<open>core/downloader.py\<close>

record 'v download_result =
  dr_success :: bool
  dr_gallery_info :: "'v gallery_info option"
  dr_download_path :: "string option"
  dr_files_downloaded :: int
  dr_error_message :: "string option"

text \<open>The two configuration values that decide what the downloader returns.\<close>

record config =
  history_enable_history :: bool
  download_max_parallel_galleries :: int

subsection \<open>\<open>_sanitize_filename\<close>\<close>

text \<open>The characters \<open><>:"/\|?*\<close>, in the order of the source.\<close>

definition invalid_chars :: string where
  "invalid_chars =
     [CHR ''<'', CHR ''>'', CHR '':'', CHR 0x22, CHR ''/'', CHR 0x5C, CHR ''|'', CHR ''?'', CHR ''*'']"

definition sanitize_filename :: "string \<Rightarrow> string" where
  "sanitize_filename filename =
     (let filename = fold (\<lambda>char f. replace char CHR ''_'' f) invalid_chars filename;
          filename = (if length filename > 200 then take 200 filename @ ''...'' else filename)
      in strip filename)"

subsection \<open>Reading the output of gallery-dl\<close>

definition image_exts :: "string list" where
  "image_exts = [''.webp'', ''.jpg'', ''.png'', ''.gif'']"

definition skip_words :: "string list" where
  "skip_words = [''error'', ''failed'', ''skipping'']"

text \<open>
  \<open>_extract_download_path\<close>. \<open>parent\<close> is \<open>Path(...).parent\<close> of \<open>pathlib\<close>, whose
  result depends on the path flavour of the platform.
\<close>

fun first_download_line :: "string list \<Rightarrow> string option" where
  "first_download_line [] = None"
| "first_download_line (line # lines) =
     (if contains ''Downloads'' line \<and> list_ex (\<lambda>ext. contains ext line) image_exts
      then Some line else first_download_line lines)"

definition extract_download_path :: "(string \<Rightarrow> string) \<Rightarrow> string \<Rightarrow> string option" where
  "extract_download_path parent output =
     map_option (\<lambda>line. parent (strip line)) (first_download_line (split CHR 0x0A output))"

definition count_downloaded_files :: "string \<Rightarrow> int" where
  "count_downloaded_files output =
     int (length (filter
       (\<lambda>line. list_ex (\<lambda>ext. contains ext line) image_exts \<and> contains ''Downloads'' line \<and>
                \<not> list_ex (\<lambda>skip. contains skip (lower line)) skip_words)
       (split CHR 0x0A output)))"

subsection \<open>\<open>download_gallery\<close>\<close>

text \<open>
  What the world does to one job: whether writing the temporary configuration file
  raises, what \<open>subprocess.run\<close> does (it raises, \<open>TimeoutExpired\<close> after the hour, or
  gives a completed process), whether \<open>os.unlink\<close> raises, and the clock and the
  library functions the job calls.
\<close>

record completed_process =
  returncode :: int
  stdout :: string
  stderr :: string

record 'v job_env =
  je_tempfile :: "exn option"
  je_run :: "exn + completed_process"
  je_unlink :: "exn option"
  je_parent :: "string \<Rightarrow> string"
  je_json_dumps :: "(string \<times> 'v) list \<Rightarrow> exn + string"
  je_now :: string

definition failed :: "'v gallery_info option \<Rightarrow> string \<Rightarrow> 'v download_result" where
  "failed gallery_info message =
     \<lparr>dr_success = False, dr_gallery_info = gallery_info, dr_download_path = None,
      dr_files_downloaded = 0, dr_error_message = Some message\<rparr>"

text \<open>
  The two handlers of \<open>download_gallery\<close>: \<open>except subprocess.TimeoutExpired\<close>, then
  \<open>except Exception as e\<close>.
\<close>

fun handle_exn :: "'v gallery_info option \<Rightarrow> exn \<Rightarrow> 'v download_result" where
  "handle_exn gallery_info (TimeoutExpired m) = failed gallery_info ''Download timed out''"
| "handle_exn gallery_info e = failed gallery_info (exn_str e)"

text \<open>
  The body of the \<open>try\<close> block: the result it returns and the history it leaves, or the
  exception that leaves it. A dataclass instance and a \<open>Path\<close> are truthy, so
  \<open>gallery_info and download_path\<close> asks that neither is \<open>None\<close>.
\<close>

definition download_gallery_body ::
  "config \<Rightarrow> 'v job_env \<Rightarrow> history_db \<Rightarrow> string \<Rightarrow> 'v gallery_info option \<Rightarrow>
     exn + ('v download_result \<times> history_db)" where
  "download_gallery_body cfg env db url gallery_info =
     (case je_tempfile env of
        Some e \<Rightarrow> Inl e
      | None \<Rightarrow>
     (case je_run env of
        Inl e \<Rightarrow> Inl e
      | Inr result \<Rightarrow>
     (case je_unlink env of
        Some e \<Rightarrow> Inl e
      | None \<Rightarrow>
        if returncode result = 0 then
          let download_path = extract_download_path (je_parent env) (stdout result);
              files_count = count_downloaded_files (stdout result);
              done = \<lparr>dr_success = True, dr_gallery_info = gallery_info,
                      dr_download_path = download_path, dr_files_downloaded = files_count,
                      dr_error_message = None\<rparr>
          in (case (gallery_info, download_path) of
                (Some g, Some path) \<Rightarrow>
                  if history_enable_history cfg
                  then (case add_download (je_json_dumps env) db g path files_count ''hentaifox''
                               (je_now env) of
                          Inl e \<Rightarrow> Inl e
                        | Inr (_, db') \<Rightarrow> Inr (done, db'))
                  else Inr (done, db)
              | _ \<Rightarrow> Inr (done, db))
        else Inr (failed gallery_info (stderr result), db))))"

definition download_gallery ::
  "config \<Rightarrow> 'v job_env \<Rightarrow> history_db \<Rightarrow> string \<Rightarrow> 'v gallery_info option \<Rightarrow>
     'v download_result \<times> history_db" where
  "download_gallery cfg env db url gallery_info =
     (case download_gallery_body cfg env db url gallery_info of
        Inl e \<Rightarrow> (handle_exn gallery_info e, db)
      | Inr r \<Rightarrow> r)"

subsection \<open>\<open>download_multiple\<close>\<close>

text \<open>
  \<open>as_completed\<close> yields every future once, in the order in which the jobs finish. That
  order is the scheduler's: \<open>order\<close> gives, at each step, which of the futures still
  pending finishes next (its position among them, modulo their number; the first one
  when \<open>order\<close> is used up).
\<close>

definition next_done :: "nat list \<Rightarrow> nat \<Rightarrow> nat" where
  "next_done order n = (case order of [] \<Rightarrow> 0 | c # _ \<Rightarrow> c mod n)"

function as_completed :: "nat list \<Rightarrow> 'a list \<Rightarrow> 'a list" where
  "as_completed order [] = []"
| "as_completed order (f # fs) =
     (f # fs) ! next_done order (length (f # fs)) #
       as_completed (tl order)
         (take (next_done order (length (f # fs))) (f # fs) @
          drop (Suc (next_done order (length (f # fs)))) (f # fs))"
  by pat_completeness auto
termination
proof (relation "measure (\<lambda>(order, fs). length fs)")
  fix order :: "nat list" and f :: 'a and fs :: "'a list"
  have "next_done order (length (f # fs)) < length (f # fs)"
    by (cases order) (simp_all add: next_done_def)
  then show "((tl order,
         take (next_done order (length (f # fs))) (f # fs) @
         drop (Suc (next_done order (length (f # fs)))) (f # fs)),
        order, f # fs) \<in> measure (\<lambda>(order, fs). length fs)"
    by simp
qed simp

text \<open>
  The loop over the completed futures. \<open>future.result()\<close> returns the job's result or
  raises what the job raised; \<open>calls\<close> are the calls made to the progress callback, when
  one is set. The callbacks that the command line installs update a progress bar; a
  callback that raises is not part of this model.
\<close>

fun future_result :: "exn + 'v download_result \<Rightarrow> 'v download_result" where
  "future_result (Inr result) = result"
| "future_result (Inl e) = failed None (exn_str e)"

definition progress_calls :: "bool \<Rightarrow> nat \<Rightarrow> (string \<times> nat \<times> nat) list" where
  "progress_calls callback_set n =
     (if callback_set
      then map (\<lambda>i. (''Completed '' @ str_nat (i + 1) @ ''/'' @ str_nat n, i + 1, n)) [0..<n]
      else [])"

text \<open>
  \<open>world i url\<close> is what the world does to the job submitted at position \<open>i\<close>.
  \<open>ThreadPoolExecutor\<close> raises \<open>ValueError\<close> when \<open>max_workers\<close> is not positive.
  The jobs are submitted without a \<open>gallery_info\<close>.
\<close>

definition submit ::
  "config \<Rightarrow> (nat \<Rightarrow> string \<Rightarrow> 'v job_env) \<Rightarrow> history_db \<Rightarrow> nat \<times> string \<Rightarrow>
     exn + 'v download_result" where
  "submit cfg world db = (\<lambda>(i, url). Inr (fst (download_gallery cfg (world i url) db url None)))"

definition download_multiple ::
  "config \<Rightarrow> bool \<Rightarrow> (nat \<Rightarrow> string \<Rightarrow> 'v job_env) \<Rightarrow> nat list \<Rightarrow> history_db \<Rightarrow> string list \<Rightarrow>
     exn + ('v download_result list \<times> (string \<times> nat \<times> nat) list)" where
  "download_multiple cfg callback_set world order db urls =
     (let max_workers = download_max_parallel_galleries cfg
      in if max_workers \<le> 0 then Inl (ValueError ''max_workers must be greater than 0'')
         else
           let futures = map (submit cfg world db) (enumerate 0 urls)
           in Inr (map future_result (as_completed order futures),
                   progress_calls callback_set (length urls)))"


subsection \<open>What a job raises\<close>

text \<open>
  The first exception raised inside the \<open>try\<close> block of a job that was submitted without
  a \<open>gallery_info\<close> (such a job never reaches the history), and the text that the
  handlers put into the result for it.
\<close>

definition job_exception :: "'v job_env \<Rightarrow> exn option" where
  "job_exception env =
     (case je_tempfile env of
        Some e \<Rightarrow> Some e
      | None \<Rightarrow> (case je_run env of Inl e \<Rightarrow> Some e | Inr result \<Rightarrow> je_unlink env))"

definition error_text :: "exn \<Rightarrow> string" where
  "error_text e = (case e of TimeoutExpired m \<Rightarrow> ''Download timed out'' | _ \<Rightarrow> exn_str e)"


section \<open>core/converter.py\<close>

record conversion_result =
  cr_success :: bool
  cr_output_path :: "string option"
  cr_input_files_count :: int
  cr_error_message :: "string option"

definition supported_formats :: "string list" where
  "supported_formats = [''.jpg'', ''.jpeg'', ''.png'', ''.webp'', ''.gif'', ''.bmp'']"

subsection \<open>The file system\<close>

text \<open>
  A directory is known by its path; a file system gives the entries of a directory in the
  order in which \<open>iterdir\<close> yields them, or \<open>None\<close> where \<open>exists\<close> is false. The file
  of name \<open>n\<close> in directory \<open>d\<close> is the path \<open>d / n\<close>, whose \<open>name\<close> is \<open>n\<close>; the
  model keeps the name. Every call that reaches the file system is recorded.
\<close>

record dir_entry =
  de_name :: string
  de_is_file :: bool

type_synonym filesystem = "string \<Rightarrow> dir_entry list option"

datatype fs_op =
    Exists string
  | Iterdir string
  | Is_file string string
  | Read_file string string
  | Write_file string
  | Unlink string string
  | Rmdir string

text \<open>
  \<open>Path.suffix\<close> as \<open>pathlib\<close> computes it up to Python 3.13: the name from its last
  dot on, unless that dot is the first or the last character.
\<close>

definition rfind :: "char \<Rightarrow> string \<Rightarrow> nat option" where
  "rfind c s = (case filter (\<lambda>i. s ! i = c) (rev [0..<length s]) of [] \<Rightarrow> None | i # _ \<Rightarrow> Some i)"

definition suffix :: "string \<Rightarrow> string" where
  "suffix name =
     (case rfind CHR ''.'' name of
        None \<Rightarrow> []
      | Some i \<Rightarrow> if 0 < i \<and> i + 1 < length name then drop i name else [])"

subsection \<open>\<open>_natural_sort_key\<close>\<close>

text \<open>
  \<open>re.split(r'(\d+)', text)\<close>: the text before the first run of decimal digits, that
  run, the text up to the next run, and so on to the text after the last run. The pieces
  outside the runs may be empty.
\<close>

function re_split_digits :: "string \<Rightarrow> string list" where
  "re_split_digits text =
     (case dropWhile (\<lambda>c. \<not> is_decimal c) text of
        [] \<Rightarrow> [text]
      | d # rest \<Rightarrow>
          takeWhile (\<lambda>c. \<not> is_decimal c) text # takeWhile is_decimal (d # rest) #
            re_split_digits (dropWhile is_decimal (d # rest)))"
  by pat_completeness auto
termination
proof (relation "measure length")
  fix s :: string and d rest
  assume a: "dropWhile (\<lambda>c. \<not> is_decimal c) s = d # rest"
  have "is_decimal d"
    using a hd_dropWhile [of "\<lambda>c. \<not> is_decimal c" s] by simp
  then have "length (dropWhile is_decimal (d # rest)) < length (d # rest)"
    using length_dropWhile_le [of is_decimal rest] by simp
  moreover have "length (d # rest) \<le> length s"
    using length_dropWhile_le [of "\<lambda>c. \<not> is_decimal c" s] a by simp
  ultimately show "(dropWhile is_decimal (d # rest), s) \<in> measure length"
    by simp
qed simp

declare re_split_digits.simps [simp del]

text \<open>
  An element of a key is an \<open>int\<close> or a \<open>str\<close>. The comprehension
  \<open>[int(c) if c.isdigit() else c.lower() for c in ...]\<close> builds the key from left to
  right and stops at the first exception.
\<close>

datatype key_part = KInt int | KStr string

definition key_part_of :: "string \<Rightarrow> exn + key_part" where
  "key_part_of c = (if isdigit c then map_sum id KInt (py_int c) else Inr (KStr (lower c)))"

fun sequence :: "(exn + 'a) list \<Rightarrow> exn + 'a list" where
  "sequence [] = Inr []"
| "sequence (x # xs) =
     (case x of
        Inl e \<Rightarrow> Inl e
      | Inr v \<Rightarrow> (case sequence xs of Inl e \<Rightarrow> Inl e | Inr vs \<Rightarrow> Inr (v # vs)))"

definition natural_sort_key :: "string \<Rightarrow> exn + key_part list" where
  "natural_sort_key text = sequence (map key_part_of (re_split_digits text))"

subsection \<open>\<open>sorted\<close> on keys\<close>

text \<open>
  Python compares two lists at the first position where they differ by \<open>==\<close>, with
  \<open><\<close> of the two elements there; a list that is a proper prefix of the other is the
  smaller. An \<open>int\<close> and a \<open>str\<close> are never \<open>==\<close>, and \<open><\<close> between them raises
  \<open>TypeError\<close>.
\<close>

fun part_lt :: "key_part \<Rightarrow> key_part \<Rightarrow> exn + bool" where
  "part_lt (KInt a) (KInt b) = Inr (a < b)"
| "part_lt (KStr a) (KStr b) = Inr (a < b)"
| "part_lt (KInt a) (KStr b) =
     Inl (TypeError ''< not supported between instances of int and str'')"
| "part_lt (KStr a) (KInt b) =
     Inl (TypeError ''< not supported between instances of str and int'')"

fun key_lt :: "key_part list \<Rightarrow> key_part list \<Rightarrow> exn + bool" where
  "key_lt [] [] = Inr False"
| "key_lt [] (y # ys) = Inr True"
| "key_lt (x # xs) [] = Inr False"
| "key_lt (x # xs) (y # ys) = (if x = y then key_lt xs ys else part_lt x y)"

text \<open>
  \<open>sorted(xs, key=f)\<close> computes the key of every element first, in order, and then
  sorts stably with \<open><\<close> on the keys. The model sorts by insertion: an element goes
  behind the elements whose key is smaller than its own and before the others. Which
  pairs Python's merge sort compares is not modelled; any comparison that raises makes the
  model raise.
\<close>

fun insort_lt ::
  "key_part list \<times> 'a \<Rightarrow> (key_part list \<times> 'a) list \<Rightarrow> exn + (key_part list \<times> 'a) list" where
  "insort_lt x [] = Inr [x]"
| "insort_lt x (y # ys) =
     (case key_lt (fst y) (fst x) of
        Inl e \<Rightarrow> Inl e
      | Inr True \<Rightarrow> (case insort_lt x ys of Inl e \<Rightarrow> Inl e | Inr zs \<Rightarrow> Inr (y # zs))
      | Inr False \<Rightarrow> Inr (x # y # ys))"

fun sort_lt :: "(key_part list \<times> 'a) list \<Rightarrow> exn + (key_part list \<times> 'a) list" where
  "sort_lt [] = Inr []"
| "sort_lt (x # xs) = (case sort_lt xs of Inl e \<Rightarrow> Inl e | Inr ys \<Rightarrow> insort_lt x ys)"

definition sorted_key :: "('a \<Rightarrow> exn + key_part list) \<Rightarrow> 'a list \<Rightarrow> exn + 'a list" where
  "sorted_key key xs =
     (case sequence (map key xs) of
        Inl e \<Rightarrow> Inl e
      | Inr keys \<Rightarrow> (case sort_lt (zip keys xs) of Inl e \<Rightarrow> Inl e | Inr ys \<Rightarrow> Inr (map snd ys)))"

subsection \<open>\<open>get_image_files\<close>\<close>

definition is_image :: "dir_entry \<Rightarrow> bool" where
  "is_image e \<longleftrightarrow> de_is_file e \<and> lower (suffix (de_name e)) \<in> set supported_formats"

definition get_image_files :: "filesystem \<Rightarrow> string \<Rightarrow> exn + string list" where
  "get_image_files fs directory =
     (case fs directory of
        None \<Rightarrow> Inr []
      | Some entries \<Rightarrow> sorted_key natural_sort_key (map de_name (filter is_image entries)))"

text \<open>The calls that \<open>get_image_files\<close> makes to the file system.\<close>

definition get_image_files_ops :: "filesystem \<Rightarrow> string \<Rightarrow> fs_op list" where
  "get_image_files_ops fs directory =
     Exists directory #
       (case fs directory of
          None \<Rightarrow> []
        | Some entries \<Rightarrow> Iterdir directory # map (\<lambda>e. Is_file directory (de_name e)) entries)"

subsection \<open>\<open>convert_to_pdf\<close>, \<open>convert_to_cbz\<close>, \<open>convert_gallery\<close>\<close>

text \<open>
  Both converters list the images, return at once when there are none, and otherwise go
  on to decode the images with PIL, write the archive and delete the sources. That
  second part, from \<open>Determine output path\<close> to the end with the handler that turns its
  exceptions into a result, is a parameter of each converter here (\<open>assemble_pdf\<close>,
  \<open>assemble_cbz\<close>): given the images, the source directory, the output path,
  \<open>delete_source\<close> and \<open>quality\<close>, it gives the result and the calls it makes to the
  file system. What is proved below holds whatever that part does. An exception of
  \<open>get_image_files\<close> reaches the handler before \<open>image_files\<close> is bound, so the count
  it reports is \<open>0\<close>.
\<close>

type_synonym assemble =
  "string list \<Rightarrow> string \<Rightarrow> string option \<Rightarrow> bool \<Rightarrow> int option \<Rightarrow> conversion_result \<times> fs_op list"

definition no_images :: conversion_result where
  "no_images =
     \<lparr>cr_success = False, cr_output_path = None, cr_input_files_count = 0,
      cr_error_message = Some ''No image files found in directory''\<rparr>"

definition convert_to_pdf ::
  "assemble \<Rightarrow> filesystem \<Rightarrow> string \<Rightarrow> string option \<Rightarrow> bool \<Rightarrow> int option \<Rightarrow>
     conversion_result \<times> fs_op list" where
  "convert_to_pdf assemble_pdf fs source_dir output_path delete_source quality =
     (case get_image_files fs source_dir of
        Inl e \<Rightarrow>
          (\<lparr>cr_success = False, cr_output_path = None, cr_input_files_count = 0,
            cr_error_message = Some (exn_str e)\<rparr>,
           get_image_files_ops fs source_dir)
      | Inr image_files \<Rightarrow>
          if image_files = [] then (no_images, get_image_files_ops fs source_dir)
          else
            let (result, ops) = assemble_pdf image_files source_dir output_path delete_source quality
            in (result, get_image_files_ops fs source_dir @ ops))"

definition convert_to_cbz ::
  "assemble \<Rightarrow> filesystem \<Rightarrow> string \<Rightarrow> string option \<Rightarrow> bool \<Rightarrow> int option \<Rightarrow>
     conversion_result \<times> fs_op list" where
  "convert_to_cbz assemble_cbz fs source_dir output_path delete_source quality =
     (case get_image_files fs source_dir of
        Inl e \<Rightarrow>
          (\<lparr>cr_success = False, cr_output_path = None, cr_input_files_count = 0,
            cr_error_message = Some (exn_str e)\<rparr>,
           get_image_files_ops fs source_dir)
      | Inr image_files \<Rightarrow>
          if image_files = [] then (no_images, get_image_files_ops fs source_dir)
          else
            let (result, ops) = assemble_cbz image_files source_dir output_path delete_source quality
            in (result, get_image_files_ops fs source_dir @ ops))"

definition convert_gallery ::
  "assemble \<Rightarrow> assemble \<Rightarrow> filesystem \<Rightarrow> string \<Rightarrow> string \<Rightarrow> string option \<Rightarrow> bool \<Rightarrow> int option \<Rightarrow>
     conversion_result \<times> fs_op list" where
  "convert_gallery assemble_pdf assemble_cbz fs source_dir format_type output_path delete_source quality =
     (let format_type = lower format_type
      in if format_type = ''pdf''
         then convert_to_pdf assemble_pdf fs source_dir output_path delete_source quality
         else if format_type = ''cbz''
         then convert_to_cbz assemble_cbz fs source_dir output_path delete_source quality
         else (\<lparr>cr_success = False, cr_output_path = None, cr_input_files_count = 0,
                cr_error_message = Some (''Unsupported format: '' @ format_type)\<rparr>, []))"


subsection \<open>The order that the keys stand for\<close>

text \<open>
  The pieces that \<open>re.split\<close> gives: a piece without a decimal digit, then in turn a
  non-empty run of decimal digits and a piece without one.
\<close>

fun pieces_ok :: "string list \<Rightarrow> bool" where
  "pieces_ok [] \<longleftrightarrow> False"
| "pieces_ok [p] \<longleftrightarrow> \<not> list_ex is_decimal p"
| "pieces_ok (p # d # ps) \<longleftrightarrow>
     \<not> list_ex is_decimal p \<and> d \<noteq> [] \<and> list_all is_decimal d \<and> pieces_ok ps"

text \<open>
  A key in which strings and integers take turns; \<open>str_next\<close> tells whether a string
  comes first.
\<close>

fun alternates :: "bool \<Rightarrow> key_part list \<Rightarrow> bool" where
  "alternates str_next [] \<longleftrightarrow> True"
| "alternates str_next (KStr s # ks) \<longleftrightarrow> str_next \<and> alternates False ks"
| "alternates str_next (KInt n # ks) \<longleftrightarrow> \<not> str_next \<and> alternates True ks"

text \<open>
  The natural-sort rule as an order: a name stands for the list of its runs, a run of
  digits for its number and any other run for its lower-case text, and two names
  compare as these lists do, run by run. Numbers and texts are both written as pairs so
  that the lists have an order of their own; where two keys are compared, a number only
  ever meets a number and a text a text.
\<close>

fun rank :: "key_part \<Rightarrow> int \<times> string" where
  "rank (KInt n) = (n, [])"
| "rank (KStr s) = (0, s)"

definition natural_order :: "string \<Rightarrow> (int \<times> string) list" where
  "natural_order name = (case natural_sort_key name of Inl e \<Rightarrow> [] | Inr key \<Rightarrow> map rank key)"

text \<open>A name in which every character that \<open>isdigit\<close> accepts is a decimal digit.\<close>

definition plain_digits :: "string \<Rightarrow> bool" where
  "plain_digits name \<longleftrightarrow> list_all (\<lambda>c. is_decimal c \<or> \<not> is_digit c) name"


section \<open>core/sites/hentaifox.py: \<open>_parse_gallery_list\<close>\<close>

text \<open>
  What the parser reads from the HTML tree: the galleries it extracted from the
  \<open>thumb\<close> elements, the \<open>a\<close> elements of the pagination element if there is one
  (for each, its \<open>get_text()\<close>, its \<open>.string\<close> and its \<open>href\<close>), and the strings of
  the document in document order.
\<close>

record page_link =
  pl_text :: string
  pl_string :: "string option"
  pl_href :: "string option"

record 'v gallery_page =
  gp_galleries :: "'v gallery_info list"
  gp_pagination :: "page_link list option"
  gp_strings :: "string list"

text \<open>\<open>page=(\d+)\<close> at the start of a string.\<close>

definition match_page_param :: "string \<Rightarrow> string option" where
  "match_page_param s =
     (if take 5 s = ''page='' \<and> takeWhile is_decimal (drop 5 s) \<noteq> []
      then Some (takeWhile is_decimal (drop 5 s)) else None)"

text \<open>
  \<open>page\s+\d+\s+of\s+(\d+)\<close> at the start of a string. The classes that follow one
  another are disjoint, so each greedy run ends where the next one must begin.
\<close>

definition match_page_of :: "string \<Rightarrow> string option" where
  "match_page_of s =
     (let s1 = drop 4 s;
          s2 = dropWhile is_space s1;
          s3 = dropWhile is_decimal s2;
          s4 = dropWhile is_space s3;
          s5 = drop 2 s4;
          s6 = dropWhile is_space s5;
          last_page = takeWhile is_decimal s6
      in if take 4 s = ''page'' \<and> takeWhile is_space s1 \<noteq> [] \<and> takeWhile is_decimal s2 \<noteq> [] \<and>
            takeWhile is_space s3 \<noteq> [] \<and> take 2 s4 = ''of'' \<and> takeWhile is_space s5 \<noteq> [] \<and>
            last_page \<noteq> []
         then Some last_page else None)"

text \<open>
  The body of the loop over the links: the page number it appends, if any. A
  \<open>ValueError\<close> of \<open>int\<close> is caught and the link skipped.
\<close>

definition link_page_number :: "page_link \<Rightarrow> int option" where
  "link_page_number link =
     (let link_text = strip (pl_text link);
          href = (case pl_href link of None \<Rightarrow> [] | Some h \<Rightarrow> h)
      in if isdigit link_text
         then (case py_int link_text of Inl e \<Rightarrow> None | Inr n \<Rightarrow> Some n)
         else if contains ''page='' href
         then map_option digits_value (re_search match_page_param href)
         else None)"

definition is_next_link :: "page_link \<Rightarrow> bool" where
  "is_next_link link =
     (case pl_string link of
        None \<Rightarrow> False
      | Some text \<Rightarrow> text \<noteq> [] \<and> (contains ''next'' (lower text) \<or> contains ''>'' text))"

definition is_page_info :: "string \<Rightarrow> bool" where
  "is_page_info text \<longleftrightarrow> text \<noteq> [] \<and> contains ''page'' (lower text) \<and> contains ''of'' (lower text)"

text \<open>The three steps that set \<open>total_pages\<close>, in the order of the source.\<close>

definition pages_from_pagination :: "page_link list option \<Rightarrow> int \<Rightarrow> int" where
  "pages_from_pagination pagination current_page =
     (case pagination of
        None \<Rightarrow> 1
      | Some page_links \<Rightarrow>
          (case List.map_filter link_page_number page_links of
             n # ns \<Rightarrow> fold max ns n
           | [] \<Rightarrow> if filter is_next_link page_links \<noteq> [] then current_page + 1 else 1))"

definition pages_from_page_info :: "string list \<Rightarrow> int \<Rightarrow> int" where
  "pages_from_page_info strings total_pages =
     (if total_pages = 1
      then (case find is_page_info strings of
              None \<Rightarrow> total_pages
            | Some page_info \<Rightarrow>
                (case re_search match_page_of (lower page_info) of
                   None \<Rightarrow> total_pages
                 | Some last_page \<Rightarrow> digits_value last_page))
      else total_pages)"

definition parse_gallery_list :: "'v gallery_page \<Rightarrow> int \<Rightarrow> 'v search_result" where
  "parse_gallery_list page current_page =
     (let galleries = gp_galleries page;
          total_pages = pages_from_pagination (gp_pagination page) current_page;
          total_pages = pages_from_page_info (gp_strings page) total_pages;
          total_pages = (if total_pages = 1 \<and> length galleries \<ge> 20 then 10 else total_pages)
      in \<lparr>sr_galleries = galleries,
          sr_total_count = int (length galleries) * total_pages,
          sr_current_page = current_page,
          sr_total_pages = total_pages,
          sr_has_next = (current_page < total_pages)\<rparr>)"


section \<open>Concrete inputs\<close>

text \<open>Scenario A of the specification: gallery 147838 of hentaifox, 49 files.\<close>

definition g147838 :: "unit gallery_info" where
  "g147838 =
     \<lparr>gi_id = ''147838'', gi_title = ''Sample'', gi_url = ''https://hentaifox.com/gallery/147838/'',
      gi_tags = [], gi_artist = None, gi_pages = Some 49, gi_description = None,
      gi_thumbnail_url = None, gi_metadata = None\<rparr>"

definition no_dumps :: "(string \<times> unit) list \<Rightarrow> exn + string" where
  "no_dumps m = Inl (TypeError ''Object is not JSON serializable'')"

definition db_147838 :: history_db where
  "db_147838 =
     \<lparr>db_rows =
        [\<lparr>he_id = 1, he_gallery_id = ''147838'', he_title = ''Sample'',
          he_url = ''https://hentaifox.com/gallery/147838/'', he_download_path = ''Downloads/Sample'',
          he_downloaded_at = ''2025-01-01T10:00:00'', he_files_count = 49, he_site = ''hentaifox'',
          he_metadata = None\<rparr>],
      db_seq = 1\<rparr>"

definition gallery :: "string \<Rightarrow> unit gallery_info" where
  "gallery i =
     \<lparr>gi_id = i, gi_title = ''Gallery '' @ i, gi_url = ''https://hentaifox.com/gallery/'' @ i,
      gi_tags = [], gi_artist = None, gi_pages = None, gi_description = None,
      gi_thumbnail_url = None, gi_metadata = None\<rparr>"

definition db_3_5_0 :: history_db where
  "db_3_5_0 =
     \<lparr>db_rows =
        [\<lparr>he_id = 1, he_gallery_id = ''1'', he_title = ''Gallery 1'',
          he_url = ''https://hentaifox.com/gallery/1'', he_download_path = ''a'',
          he_downloaded_at = ''t1'', he_files_count = 3, he_site = ''hentaifox'', he_metadata = None\<rparr>,
         \<lparr>he_id = 2, he_gallery_id = ''2'', he_title = ''Gallery 2'',
          he_url = ''https://hentaifox.com/gallery/2'', he_download_path = ''b'',
          he_downloaded_at = ''t2'', he_files_count = 5, he_site = ''hentaifox'', he_metadata = None\<rparr>,
         \<lparr>he_id = 3, he_gallery_id = ''3'', he_title = ''Gallery 3'',
          he_url = ''https://hentaifox.com/gallery/3'', he_download_path = ''c'',
          he_downloaded_at = ''t3'', he_files_count = 0, he_site = ''hentaifox'', he_metadata = None\<rparr>],
      db_seq = 3\<rparr>"


text \<open>
  A batch of three jobs: the first runs into the timeout, the second downloads two files,
  the third cannot start gallery-dl.
\<close>

definition cfg2 :: config where
  "cfg2 = \<lparr>history_enable_history = True, download_max_parallel_galleries = 2\<rparr>"

definition urls3 :: "string list" where
  "urls3 = [''bad-url'', ''https://hentaifox.com/gallery/1/'', ''https://hentaifox.com/gallery/2/'']"

definition two_files :: completed_process where
  "two_files =
     \<lparr>returncode = 0,
      stdout = ''Downloads/Sample/1.jpg'' @ [CHR 0x0A] @ ''Downloads/Sample/2.jpg'' @ [CHR 0x0A],
      stderr = []\<rparr>"

definition world3 :: "nat \<Rightarrow> string \<Rightarrow> unit job_env" where
  "world3 i url =
     \<lparr>je_tempfile = None,
      je_run =
        (if i = 0 then Inl (TimeoutExpired ''Command timed out after 3600 seconds'')
         else if i = 1 then Inr two_files
         else Inl (Exception ''No such file or directory: gallery-dl'')),
      je_unlink = None,
      je_parent = (\<lambda>p. ''Downloads/Sample''),
      je_json_dumps = no_dumps,
      je_now = ''2025-01-01T10:00:00''\<rparr>"

definition results3 :: "unit download_result list" where
  "results3 =
     [\<lparr>dr_success = True, dr_gallery_info = None, dr_download_path = Some ''Downloads/Sample'',
       dr_files_downloaded = 2, dr_error_message = None\<rparr>,
      \<lparr>dr_success = False, dr_gallery_info = None, dr_download_path = None,
       dr_files_downloaded = 0, dr_error_message = Some ''No such file or directory: gallery-dl''\<rparr>,
      \<lparr>dr_success = False, dr_gallery_info = None, dr_download_path = None,
       dr_files_downloaded = 0, dr_error_message = Some ''Download timed out''\<rparr>]"


text \<open>
  A directory \<open>g\<close> with three images, listed out of order, beside a text file and a
  subdirectory whose name ends in \<open>.png\<close>; a directory \<open>notes\<close> without images; no
  other directory exists.
\<close>

definition fs_sample :: filesystem where
  "fs_sample d =
     (if d = ''g'' then
        Some [\<lparr>de_name = ''img10.png'', de_is_file = True\<rparr>,
              \<lparr>de_name = ''img2.png'', de_is_file = True\<rparr>,
              \<lparr>de_name = ''readme.txt'', de_is_file = True\<rparr>,
              \<lparr>de_name = ''img1.png'', de_is_file = True\<rparr>,
              \<lparr>de_name = ''old.png'', de_is_file = False\<rparr>]
      else if d = ''notes'' then
        Some [\<lparr>de_name = ''readme.txt'', de_is_file = True\<rparr>,
              \<lparr>de_name = ''old.png'', de_is_file = False\<rparr>,
              \<lparr>de_name = ''.png'', de_is_file = True\<rparr>]
      else None)"

text \<open>An assembling step that would report success and write the archive.\<close>

definition assemble_ok :: assemble where
  "assemble_ok files source_dir output_path delete_source quality =
     (\<lparr>cr_success = True, cr_output_path = Some (source_dir @ ''/out''),
       cr_input_files_count = int (length files), cr_error_message = None\<rparr>,
      map (Read_file source_dir) files @ [Write_file (source_dir @ ''/out'')])"

text \<open>A list page with twenty galleries and nothing that tells the number of pages.\<close>

definition page20 :: "unit gallery_page" where
  "page20 = \<lparr>gp_galleries = replicate 20 (gallery ''1''), gp_pagination = None, gp_strings = []\<rparr>"


text \<open>
  The name \<open>\<twosuperior>1.png\<close>, whose first character is SUPERSCRIPT TWO (U+00B2), alone
  in a directory and beside two other images.
\<close>

definition squared :: string where
  "squared = CHR 0xB2 # ''1.png''"

definition fs_squared :: filesystem where
  "fs_squared d =
     (if d = ''one'' then Some [\<lparr>de_name = squared, de_is_file = True\<rparr>]
      else if d = ''three'' then
        Some [\<lparr>de_name = ''img10.png'', de_is_file = True\<rparr>,
              \<lparr>de_name = squared, de_is_file = True\<rparr>,
              \<lparr>de_name = ''img2.png'', de_is_file = True\<rparr>]
      else None)"

definition squared_error :: exn where
  "squared_error = ValueError (''invalid literal for int() with base 10: '' @ [CHR 0x27, CHR 0xB2, CHR 0x27])"


section \<open>The history store\<close>

lemma latest_mem: "latest b rs \<in> set (b # rs)"
  by (induction rs arbitrary: b) auto

lemma get_download_id_mem:
  assumes "is_downloaded db g s"
  shows "\<exists>r \<in> set (rows_for db g s). get_download_id db g s = Some (he_id r)"
proof (cases "rows_for db g s")
  case Nil
  with assms show ?thesis by (simp add: is_downloaded_def)
next
  case (Cons a rs)
  have "latest a rs \<in> set (rows_for db g s)"
    using latest_mem [of a rs] Cons by simp
  moreover have "get_download_id db g s = Some (he_id (latest a rs))"
    by (simp add: get_download_id_def Cons)
  ultimately show ?thesis by blast
qed

lemma add_download_existing:
  "is_downloaded db (gi_id g) s \<Longrightarrow>
     add_download jd db g p n s t = Inr (get_download_id db (gi_id g) s, db)"
  by (simp add: add_download_def)

text \<open>A call for a key that has no row appends exactly one row, with the values given.\<close>

lemma add_download_new:
  assumes "\<not> is_downloaded db (gi_id g) s" "add_download jd db g p n s t = Inr (r, db')"
  shows "\<exists>row. db_rows db' = db_rows db @ [row] \<and> r = Some (he_id row) \<and> he_id row = next_rowid db
           \<and> he_gallery_id row = gi_id g \<and> he_site row = s \<and> he_files_count row = n
           \<and> he_download_path row = p \<and> he_downloaded_at row = t \<and> db_seq db' = next_rowid db"
  using assms
  by (auto simp: add_download_def Let_def split: option.splits list.splits sum.splits)

lemma rows_for_snoc:
  "db_rows db' = db_rows db @ [row] \<Longrightarrow>
     rows_for db' k s =
       rows_for db k s @ (if he_gallery_id row = k \<and> he_site row = s then [row] else [])"
  by (simp add: rows_for_def)

text \<open>
  The call returns unless \<open>json.dumps\<close> raises: always for a key that is stored, and for
  a new key when there is no metadata or the metadata can be serialised.
\<close>

lemma add_download_returns:
  assumes "is_downloaded db (gi_id g) s \<or> gi_metadata g = None \<or> gi_metadata g = Some [] \<or>
           (\<exists>m j. gi_metadata g = Some m \<and> json_dumps m = Inr j)"
  shows "\<exists>r db'. add_download json_dumps db g p n s t = Inr (r, db')"
  using assms
  by (auto simp: add_download_def Let_def split: option.splits list.splits sum.splits)

text \<open>
  No call gives a key a second row: a store in which every key has at most one row, as
  the empty store has, stays so.
\<close>

lemma add_download_keeps_unique:
  assumes "add_download jd db g p n s t = Inr (r, db')" "length (rows_for db k s') \<le> 1"
  shows "length (rows_for db' k s') \<le> 1"
proof (cases "is_downloaded db (gi_id g) s")
  case True
  with assms show ?thesis by (simp add: add_download_def)
next
  case False
  from add_download_new [OF False assms(1)] obtain row where
    row: "db_rows db' = db_rows db @ [row]" "he_gallery_id row = gi_id g" "he_site row = s"
    by blast
  show ?thesis
  proof (cases "k = gi_id g \<and> s' = s")
    case True
    with False have "rows_for db k s' = []" by (simp add: is_downloaded_def)
    then show ?thesis by (simp add: rows_for_snoc [OF row(1)])
  next
    case False
    then show ?thesis using assms(2) row by (auto simp add: rows_for_snoc [OF row(1)])
  qed
qed

lemma add_downloads_keep_unique:
  "add_downloads jd db calls = Inr db' \<Longrightarrow> length (rows_for db k s) \<le> 1 \<Longrightarrow>
     length (rows_for db' k s) \<le> 1"
proof (induction calls arbitrary: db)
  case Nil
  then show ?case by simp
next
  case (Cons c calls)
  obtain g p n st t where c: "c = (g, p, n, st, t)" by (cases c) auto
  from Cons.prems(1) obtain r d where
    1: "add_download jd db g p n st t = Inr (r, d)" and 2: "add_downloads jd d calls = Inr db'"
    by (auto simp: c split: sum.splits)
  from add_download_keeps_unique [OF 1 Cons.prems(2)] Cons.IH [OF 2] show ?case by blast
qed

text \<open>
  C1. When the key \<open>(gallery_info.id, site)\<close> has a row, \<open>add_download\<close> returns the id
  of a row of that key and leaves the database as it was. So, from a store in which the
  key has at most one row (every store that \<open>add_download\<close> built from the empty one),
  a call that returns \<open>r1\<close> is followed by a second call for the same key, whatever its
  other arguments, that returns \<open>r1\<close> again and changes nothing; the key then has exactly
  one row, whose id is \<open>r1\<close>.
\<close>

theorem add_download_idempotent:
  "(is_downloaded db (gi_id g) site \<longrightarrow>
      (\<exists>r \<in> set (rows_for db (gi_id g) site).
          add_download json_dumps db g path n site now = Inr (Some (he_id r), db)))
   \<and> (length (rows_for db (gi_id g) site) \<le> 1 \<and>
      add_download json_dumps db g path n site now = Inr (r1, db1) \<and> gi_id g2 = gi_id g \<longrightarrow>
        add_download json_dumps db1 g2 path2 n2 site now2 = Inr (r1, db1)
        \<and> (\<exists>row. rows_for db1 (gi_id g) site = [row] \<and> r1 = Some (he_id row)))"
proof (rule conjI; rule impI)
  assume "is_downloaded db (gi_id g) site"
  then show "\<exists>r \<in> set (rows_for db (gi_id g) site).
          add_download json_dumps db g path n site now = Inr (Some (he_id r), db)"
    using get_download_id_mem [of db "gi_id g" site] by (auto simp: add_download_existing)
next
  assume a: "length (rows_for db (gi_id g) site) \<le> 1 \<and>
      add_download json_dumps db g path n site now = Inr (r1, db1) \<and> gi_id g2 = gi_id g"
  have one: "\<exists>row. rows_for db1 (gi_id g) site = [row] \<and> r1 = Some (he_id row)"
  proof (cases "is_downloaded db (gi_id g) site")
    case True
    with a have eq: "db1 = db" "r1 = get_download_id db (gi_id g) site"
      by (auto simp add: add_download_existing)
    from True a obtain row where "rows_for db (gi_id g) site = [row]"
      by (cases "rows_for db (gi_id g) site") (auto simp: is_downloaded_def)
    then show ?thesis using eq by (simp add: get_download_id_def)
  next
    case False
    from a have ad: "add_download json_dumps db g path n site now = Inr (r1, db1)" by simp
    from add_download_new [OF False ad] obtain row where
      row: "db_rows db1 = db_rows db @ [row]" "r1 = Some (he_id row)"
           "he_gallery_id row = gi_id g" "he_site row = site" by blast
    from False have "rows_for db (gi_id g) site = []" by (simp add: is_downloaded_def)
    then show ?thesis using row by (simp add: rows_for_snoc [OF row(1)])
  qed
  then obtain row where row: "rows_for db1 (gi_id g) site = [row]" "r1 = Some (he_id row)"
    by blast
  then have "is_downloaded db1 (gi_id g2) site" using a by (simp add: is_downloaded_def)
  then have "add_download json_dumps db1 g2 path2 n2 site now2 =
      Inr (get_download_id db1 (gi_id g2) site, db1)"
    by (rule add_download_existing)
  moreover have "get_download_id db1 (gi_id g2) site = r1"
    using row a by (simp add: get_download_id_def)
  ultimately show "add_download json_dumps db1 g2 path2 n2 site now2 = Inr (r1, db1)
        \<and> (\<exists>row. rows_for db1 (gi_id g) site = [row] \<and> r1 = Some (he_id row))"
    using one by simp
qed

theorem add_download_idempotent_witness:
  "is_downloaded db_147838 (gi_id g147838) ''hentaifox''
   \<and> length (rows_for empty_db (gi_id g147838) ''hentaifox'') \<le> 1
   \<and> add_download no_dumps empty_db g147838 ''Downloads/Sample'' 49 ''hentaifox''
        ''2025-01-01T10:00:00'' = Inr (Some 1, db_147838)
   \<and> add_download no_dumps db_147838 g147838 ''Downloads/Other'' 7 ''hentaifox''
        ''2025-02-02T20:00:00'' = Inr (Some 1, db_147838)
   \<and> rows_for db_147838 (gi_id g147838) ''hentaifox'' = db_rows db_147838"
proof -
  have h1: "is_downloaded db_147838 (gi_id g147838) ''hentaifox''"
    by (simp add: is_downloaded_def rows_for_def db_147838_def g147838_def)
  have h2: "length (rows_for empty_db (gi_id g147838) ''hentaifox'') \<le> 1"
    by (simp add: rows_for_def empty_db_def)
  have h3: "add_download no_dumps empty_db g147838 ''Downloads/Sample'' 49 ''hentaifox''
        ''2025-01-01T10:00:00'' = Inr (Some 1, db_147838)"
    by (simp add: add_download_def is_downloaded_def rows_for_def empty_db_def g147838_def
        next_rowid_def db_147838_def)
  have h4: "rows_for db_147838 (gi_id g147838) ''hentaifox'' = db_rows db_147838"
    by (simp add: rows_for_def db_147838_def g147838_def)
  from add_download_idempotent
    [where db = empty_db and g = g147838 and ?g2.0 = g147838 and site = "''hentaifox''"
       and json_dumps = no_dumps and path = "''Downloads/Sample''" and n = 49
       and now = "''2025-01-01T10:00:00''" and ?r1.0 = "Some 1" and ?db1.0 = db_147838
       and ?path2.0 = "''Downloads/Other''" and ?n2.0 = 7 and ?now2.0 = "''2025-02-02T20:00:00''"]
    h2 h3
  have "add_download no_dumps db_147838 g147838 ''Downloads/Other'' 7 ''hentaifox''
        ''2025-02-02T20:00:00'' = Inr (Some 1, db_147838)"
    by blast
  with h1 h2 h3 h4 show ?thesis by blast
qed

lemma sum_or_zero: "or_zero (sql_sum xs) = sum_list xs"
  by (simp add: or_zero_def sql_sum_def)

lemma add_download_fresh:
  assumes "add_download jd db g p n s t = Inr (r, db')"
    and "gi_id g \<notin> he_gallery_id ` set (db_rows db)"
  shows "map he_files_count (db_rows db') = map he_files_count (db_rows db) @ [n]
       \<and> he_gallery_id ` set (db_rows db') = insert (gi_id g) (he_gallery_id ` set (db_rows db))"
proof -
  have "\<not> is_downloaded db (gi_id g) s"
    using assms(2) by (force simp: is_downloaded_def rows_for_def filter_empty_conv)
  from add_download_new [OF this assms(1)] show ?thesis by auto
qed

text \<open>
  C7. \<open>get_stats\<close> reports the number of rows as \<open>total_downloads\<close> and the sum of their
  \<open>files_count\<close> as \<open>total_files\<close>, which is \<open>0\<close> for a store without rows. After three
  downloads with distinct gallery ids and the counts 3, 5 and 0 have been recorded in a
  store without rows, \<open>total_files\<close> is 8 and \<open>total_downloads\<close> is 3.
\<close>

theorem get_stats_consistent:
  "total_downloads (get_stats db cutoff) = int (length (db_rows db))
   \<and> total_files (get_stats db cutoff) = sum_list (map he_files_count (db_rows db))
   \<and> (db_rows db = [] \<longrightarrow> total_files (get_stats db cutoff) = 0)
   \<and> (db_rows db = [] \<and> distinct [gi_id g1, gi_id g2, gi_id g3] \<and>
        add_downloads json_dumps db
          [(g1, p1, 3, s1, t1), (g2, p2, 5, s2, t2), (g3, p3, 0, s3, t3)] = Inr db'
      \<longrightarrow> total_files (get_stats db' cutoff) = 8 \<and> total_downloads (get_stats db' cutoff) = 3)"
proof -
  have downloads: "total_downloads (get_stats d cutoff) = int (length (db_rows d))" for d
    by (simp add: get_stats_def)
  have files: "total_files (get_stats d cutoff) = sum_list (map he_files_count (db_rows d))" for d
    by (simp add: get_stats_def sum_or_zero)
  have three: "total_files (get_stats db' cutoff) = 8 \<and> total_downloads (get_stats db' cutoff) = 3"
    if a: "db_rows db = [] \<and> distinct [gi_id g1, gi_id g2, gi_id g3] \<and>
        add_downloads json_dumps db
          [(g1, p1, 3, s1, t1), (g2, p2, 5, s2, t2), (g3, p3, 0, s3, t3)] = Inr db'"
  proof -
    from a obtain r1 d1 r2 d2 r3 where
      1: "add_download json_dumps db g1 p1 3 s1 t1 = Inr (r1, d1)" and
      2: "add_download json_dumps d1 g2 p2 5 s2 t2 = Inr (r2, d2)" and
      3: "add_download json_dumps d2 g3 p3 0 s3 t3 = Inr (r3, db')"
      by (auto split: sum.splits)
    from a have "gi_id g1 \<notin> he_gallery_id ` set (db_rows db)" by simp
    note f1 = add_download_fresh [OF 1 this]
    with a have "gi_id g2 \<notin> he_gallery_id ` set (db_rows d1)" by auto
    note f2 = add_download_fresh [OF 2 this]
    with f1 a have "gi_id g3 \<notin> he_gallery_id ` set (db_rows d2)" by auto
    note f3 = add_download_fresh [OF 3 this]
    from f1 f2 f3 a have m: "map he_files_count (db_rows db') = [3, 5, 0]" by simp
    then have "length (map he_files_count (db_rows db')) = 3" by simp
    then have "length (db_rows db') = 3" by simp
    with m show ?thesis by (simp add: downloads files)
  qed
  from downloads files three show ?thesis by simp
qed

theorem get_stats_consistent_witness:
  "db_rows empty_db = [] \<and> distinct [gi_id (gallery ''1''), gi_id (gallery ''2''), gi_id (gallery ''3'')]
   \<and> add_downloads no_dumps empty_db
        [(gallery ''1'', ''a'', 3, ''hentaifox'', ''t1''), (gallery ''2'', ''b'', 5, ''hentaifox'', ''t2''),
         (gallery ''3'', ''c'', 0, ''hentaifox'', ''t3'')] = Inr db_3_5_0
   \<and> total_files (get_stats empty_db ''t0'') = 0
   \<and> total_files (get_stats db_3_5_0 ''t0'') = 8 \<and> total_downloads (get_stats db_3_5_0 ''t0'') = 3"
proof -
  have h1: "db_rows empty_db = [] \<and>
      distinct [gi_id (gallery ''1''), gi_id (gallery ''2''), gi_id (gallery ''3'')]"
    by (simp add: empty_db_def gallery_def)
  have h2: "add_downloads no_dumps empty_db
        [(gallery ''1'', ''a'', 3, ''hentaifox'', ''t1''), (gallery ''2'', ''b'', 5, ''hentaifox'', ''t2''),
         (gallery ''3'', ''c'', 0, ''hentaifox'', ''t3'')] = Inr db_3_5_0"
    by (simp add: add_download_def is_downloaded_def rows_for_def empty_db_def gallery_def
        next_rowid_def db_3_5_0_def)
  from get_stats_consistent
    [where db = empty_db and ?g1.0 = "gallery ''1''" and ?g2.0 = "gallery ''2''"
       and ?g3.0 = "gallery ''3''" and json_dumps = no_dumps and db' = db_3_5_0
       and cutoff = "''t0''"] h1 h2
  show ?thesis by blast
qed


section \<open>The downloader\<close>

subsection \<open>Sanitised names\<close>

lemma replace_removes: "u \<noteq> c \<Longrightarrow> c \<notin> set (replace c u s)"
  by (auto simp: replace_def)

lemma replace_keeps_out: "x \<notin> set s \<Longrightarrow> x \<noteq> u \<Longrightarrow> x \<notin> set (replace c u s)"
  by (auto simp: replace_def)

text \<open>
  A character that one of the replacements removes, or that was absent from the start,
  is absent at the end: no later replacement brings it back.
\<close>

lemma fold_replace_removes:
  "u \<notin> set cs \<Longrightarrow> x \<in> set cs \<or> x \<notin> set s \<Longrightarrow> x \<noteq> u \<Longrightarrow>
     x \<notin> set (fold (\<lambda>c f. replace c u f) cs s)"
proof (induction cs arbitrary: s)
  case Nil
  then show ?case by simp
next
  case (Cons c cs)
  have "x \<in> set cs \<or> x \<notin> set (replace c u s)"
    using Cons.prems replace_removes [of u c s] replace_keeps_out [of x s u c] by auto
  with Cons show ?case by simp
qed

lemma length_fold_replace: "length (fold (\<lambda>c f. replace c u f) cs s) = length s"
  by (induction cs arbitrary: s) (simp_all add: replace_def)

lemma set_strip: "set (strip s) \<subseteq> set s"
  by (auto simp: strip_def dest!: set_dropWhileD)

lemma length_strip: "length (strip s) \<le> length s"
proof -
  have "length (strip s) \<le> length (dropWhile is_space s)"
    using length_dropWhile_le [of is_space "rev (dropWhile is_space s)"] by (simp add: strip_def)
  also have "\<dots> \<le> length s" by (rule length_dropWhile_le)
  finally show ?thesis .
qed

text \<open>
  The replacements, one forbidden character after the other, come to one pass over the
  title that puts the placeholder for every forbidden character and keeps every other
  character.
\<close>

lemma fold_replace_map:
  "fold (\<lambda>c f. replace c u f) cs s = map (\<lambda>x. if x \<in> set cs then u else x) s"
proof (induction cs arbitrary: s)
  case Nil
  then show ?case by simp
next
  case (Cons c cs)
  have "fold (\<lambda>c f. replace c u f) (c # cs) s =
      map (\<lambda>x. if x \<in> set cs then u else x) (replace c u s)"
    using Cons.IH [of "replace c u s"] by simp
  also have "\<dots> = map (\<lambda>x. if x \<in> set (c # cs) then u else x) s"
    by (simp add: replace_def)
  finally show ?case .
qed

text \<open>
  C8, as the code has it. The sanitised name is the title with the placeholder \<open>_\<close> put
  for each of the characters \<open><>:"/\|?*\<close> and every other character kept; cut, when the
  title has more than 200 characters, to its first 200 characters followed by three dots;
  and then stripped of the blanks at both ends. So the name has none of the forbidden
  characters, and its length is at most that of the title when the title has at most 200
  characters, and at most 203 otherwise.
\<close>

theorem sanitize_filename_safe:
  "sanitize_filename title =
     strip (if length title \<le> 200
            then map (\<lambda>c. if c \<in> set invalid_chars then CHR ''_'' else c) title
            else map (\<lambda>c. if c \<in> set invalid_chars then CHR ''_'' else c) (take 200 title) @ ''...'')
   \<and> set (sanitize_filename title) \<inter> set invalid_chars = {}
   \<and> length (sanitize_filename title) \<le> (if length title \<le> 200 then length title else 203)"
proof -
  define a where "a = fold (\<lambda>char f. replace char CHR ''_'' f) invalid_chars title"
  define b where "b = (if length a > 200 then take 200 a @ ''...'' else a)"
  have s: "sanitize_filename title = strip b"
    by (simp add: sanitize_filename_def a_def b_def Let_def)
  have m: "a = map (\<lambda>c. if c \<in> set invalid_chars then CHR ''_'' else c) title"
    unfolding a_def by (rule fold_replace_map)
  have la: "length a = length title" by (simp add: m)
  have 0: "b = (if length title \<le> 200
            then map (\<lambda>c. if c \<in> set invalid_chars then CHR ''_'' else c) title
            else map (\<lambda>c. if c \<in> set invalid_chars then CHR ''_'' else c) (take 200 title) @ ''...'')"
    by (simp add: b_def la) (simp add: m take_map)
  have "x \<notin> set a" if "x \<in> set invalid_chars" for x
    unfolding a_def using that
    by (intro fold_replace_removes) (auto simp: invalid_chars_def)
  then have "set a \<inter> set invalid_chars = {}" by auto
  moreover have "set b \<subseteq> set a \<union> {CHR ''.''}"
    using set_take_subset [of 200 a] by (auto simp: b_def)
  moreover have "CHR ''.'' \<notin> set invalid_chars" by (simp add: invalid_chars_def)
  ultimately have "set b \<inter> set invalid_chars = {}" by auto
  then have 1: "set (strip b) \<inter> set invalid_chars = {}" using set_strip [of b] by auto
  have "length b \<le> (if length title \<le> 200 then length title else 203)"
    by (simp add: b_def la)
  then have 2: "length (strip b) \<le> (if length title \<le> 200 then length title else 203)"
    using length_strip [of b] by (simp split: if_splits)
  have 3: "sanitize_filename title =
     strip (if length title \<le> 200
            then map (\<lambda>c. if c \<in> set invalid_chars then CHR ''_'' else c) title
            else map (\<lambda>c. if c \<in> set invalid_chars then CHR ''_'' else c) (take 200 title) @ ''...'')"
    by (simp only: s 0)
  from 1 2 have "set (sanitize_filename title) \<inter> set invalid_chars = {}
      \<and> length (sanitize_filename title) \<le> (if length title \<le> 200 then length title else 203)"
    by (simp only: s)
  with 3 show ?thesis by blast
qed

text \<open>
  C8 as stated fails: a title of 201 letters \<open>a\<close> gives a name of 203 characters, more
  than 200.
\<close>

theorem sanitize_filename_cap_counterexample:
  "\<not> length (sanitize_filename (replicate 201 CHR ''a'')) \<le> 200"
  by code_simp

lemma sanitize_filename_long:
  "sanitize_filename (replicate 201 CHR ''a'') = replicate 200 CHR ''a'' @ ''...''"
  by code_simp

text \<open>
  The blanks are stripped after the cut: two blanks, an \<open>x\<close> and 200 letters \<open>a\<close> give
  a name of 201 characters, which begins with the \<open>x\<close>.
\<close>

lemma sanitize_filename_stripped:
  "sanitize_filename (''  x'' @ replicate 200 CHR ''a'') = ''x'' @ replicate 197 CHR ''a'' @ ''...''"
  by code_simp

lemma sanitize_filename_placeholders:
  "sanitize_filename ''  a<b>c:d/e|f?g*h  '' = ''a_b_c_d_e_f_g_h''"
  by code_simp

subsection \<open>The batch\<close>

lemma in_set_map: "x \<in> set xs \<Longrightarrow> f x \<in> set (map f xs)"
  by simp

text \<open>Whatever the order of completion, every future is yielded exactly once.\<close>

lemma as_completed_mset: "mset (as_completed order fs) = mset fs"
proof (induction order fs rule: as_completed.induct)
  case (1 order)
  then show ?case by simp
next
  case (2 order f fs)
  let ?i = "next_done order (length (f # fs))"
  have i: "?i < length (f # fs)"
    by (cases order) (simp_all add: next_done_def)
  have "mset (f # fs) = mset (take ?i (f # fs) @ (f # fs) ! ?i # drop (Suc ?i) (f # fs))"
    using id_take_nth_drop [OF i] by simp
  also have "\<dots> = add_mset ((f # fs) ! ?i) (mset (take ?i (f # fs) @ drop (Suc ?i) (f # fs)))"
    by simp
  finally show ?case using 2 by (simp del: drop_Suc_Cons nth_Cons_Suc take_Suc_Cons)
qed

lemma as_completed_length: "length (as_completed order fs) = length fs"
  using as_completed_mset [of order fs] by (metis size_mset)

text \<open>
  The scheduler leaves every order open: each arrangement of the futures is the order of
  completion under some \<open>order\<close>.
\<close>

lemma as_completed_step:
  "fs \<noteq> [] \<Longrightarrow>
     as_completed order fs =
       fs ! next_done order (length fs) #
         as_completed (tl order)
           (take (next_done order (length fs)) fs @ drop (Suc (next_done order (length fs))) fs)"
  by (cases fs) (simp_all del: drop_Suc_Cons nth_Cons_Suc take_Suc_Cons)

lemma as_completed_any_order:
  "mset ys = mset fs \<Longrightarrow> \<exists>order. as_completed order fs = ys"
proof (induction ys arbitrary: fs)
  case Nil
  then show ?case by simp
next
  case (Cons y ys)
  from Cons.prems have "y \<in> set fs" by (metis list.set_intros(1) set_mset_mset)
  then obtain i where i: "i < length fs" "fs ! i = y" by (auto simp: in_set_conv_nth)
  let ?rest = "take i fs @ drop (Suc i) fs"
  have "fs = take i fs @ y # drop (Suc i) fs"
    using id_take_nth_drop [OF i(1)] i(2) by simp
  then have "mset fs = mset (take i fs @ y # drop (Suc i) fs)" by (rule arg_cong)
  also have "\<dots> = add_mset y (mset ?rest)" by simp
  finally have "mset ys = mset ?rest" using Cons.prems by simp
  from Cons.IH [OF this] obtain order where o: "as_completed order ?rest = ys" by blast
  have n: "next_done (i # order) (length fs) = i" using i(1) by (simp add: next_done_def)
  have "fs \<noteq> []" using i(1) by auto
  from as_completed_step [OF this, of "i # order"]
  have "as_completed (i # order) fs = y # ys"
    by (simp only: n o i(2) list.sel)
  then show ?case by blast
qed

text \<open>
  A job in which something raises returns the failed result with the text of the
  exception (the fixed text for the timeout), and leaves the history alone.
\<close>

lemma download_gallery_raising:
  "job_exception env = Some e \<Longrightarrow>
     download_gallery cfg env db url g = (failed g (error_text e), db)"
  by (cases e)
     (auto simp: job_exception_def download_gallery_def download_gallery_body_def error_text_def
       split: option.splits sum.splits)

text \<open>A job without a \<open>gallery_info\<close> leaves the history alone.\<close>

lemma download_gallery_no_info: "snd (download_gallery cfg env db url None) = db"
  by (auto simp: download_gallery_def download_gallery_body_def Let_def
      split: option.splits sum.splits)

text \<open>
  The handler of the loop in \<open>download_multiple\<close>: whatever the futures hold, the loop
  collects one result for each, a failed one with the text of the exception for a future
  that raises.
\<close>

lemma collected_results:
  "mset (map future_result (as_completed order futures)) = mset (map future_result futures)"
  by (simp only: mset_map as_completed_mset)

text \<open>
  C2. With a worker pool of positive size, \<open>download_multiple\<close> returns, for every list
  of URLs, every behaviour of the jobs and every order of completion, a list with as many
  results as there are URLs.
\<close>

theorem download_multiple_count:
  assumes "0 < download_max_parallel_galleries cfg"
  shows "\<exists>results calls.
           download_multiple cfg callback_set world order db urls = Inr (results, calls)
           \<and> length results = length urls"
  using assms by (simp add: download_multiple_def Let_def as_completed_length)

theorem download_multiple_count_witness:
  "0 < download_max_parallel_galleries cfg2
   \<and> (\<exists>results calls.
         download_multiple cfg2 True world3 [0, 0] empty_db [''bad-url'', ''bad-url''] =
           Inr (results, calls)
         \<and> length results = 2)"
proof -
  have h: "0 < download_max_parallel_galleries cfg2" by (simp add: cfg2_def)
  from download_multiple_count [OF h, of True world3 "[0, 0]" empty_db "[''bad-url'', ''bad-url'']"]
  show ?thesis using h by (simp add: numeral_2_eq_2)
qed

text \<open>
  C3. With a worker pool of positive size, \<open>download_multiple\<close> returns a list and never
  an exception, whatever the jobs raise. The list holds the result of every job, so a job
  that raises takes nothing away from the others; and for a job that raises (the timeout
  of the subprocess included) it holds the failed result carrying the text of the
  exception.
\<close>

theorem download_multiple_fault_isolation:
  assumes "0 < download_max_parallel_galleries cfg"
  shows "\<exists>results calls.
           download_multiple cfg callback_set world order db urls = Inr (results, calls)
           \<and> mset results =
               mset (map (\<lambda>(i, url). fst (download_gallery cfg (world i url) db url None))
                      (enumerate 0 urls))
           \<and> (\<forall>i e. i < length urls \<and> job_exception (world i (urls ! i)) = Some e \<longrightarrow>
                 failed None (error_text e) \<in> set results)"
proof -
  let ?job = "\<lambda>(i, url). fst (download_gallery cfg (world i url) db url None)"
  let ?results =
    "map future_result (as_completed order (map (submit cfg world db) (enumerate 0 urls)))"
  have r: "download_multiple cfg callback_set world order db urls =
      Inr (?results, progress_calls callback_set (length urls))"
    using assms by (simp add: download_multiple_def Let_def)
  have "mset ?results = mset (map future_result (map (submit cfg world db) (enumerate 0 urls)))"
    by (rule collected_results)
  also have "map future_result (map (submit cfg world db) (enumerate 0 urls)) =
      map ?job (enumerate 0 urls)"
    by (auto simp: submit_def)
  finally have m: "mset ?results = mset (map ?job (enumerate 0 urls))" .
  have "failed None (error_text e) \<in> set ?results"
    if "i < length urls \<and> job_exception (world i (urls ! i)) = Some e" for i e
  proof -
    from that have "(i, urls ! i) \<in> set (enumerate 0 urls)"
      by (auto simp: in_set_enumerate_eq)
    then have "?job (i, urls ! i) \<in> set (map ?job (enumerate 0 urls))"
      by (rule in_set_map [where f = ?job])
    moreover have "?job (i, urls ! i) = failed None (error_text e)"
      using that by (simp add: download_gallery_raising)
    ultimately have "failed None (error_text e) \<in> set_mset (mset (map ?job (enumerate 0 urls)))"
      by simp
    then show ?thesis by (simp only: m [symmetric] set_mset_mset)
  qed
  with r m show ?thesis by blast
qed

lemma download_multiple_three: "download_multiple cfg2 False world3 [1, 1] empty_db urls3 = Inr (results3, [])"
  by code_simp

theorem download_multiple_fault_isolation_witness:
  "0 < download_max_parallel_galleries cfg2
   \<and> 0 < length urls3
   \<and> job_exception (world3 0 (urls3 ! 0)) = Some (TimeoutExpired ''Command timed out after 3600 seconds'')
   \<and> download_multiple cfg2 False world3 [1, 1] empty_db urls3 = Inr (results3, [])
   \<and> failed None ''Download timed out'' \<in> set results3"
proof -
  have h: "0 < download_max_parallel_galleries cfg2" by (simp add: cfg2_def)
  have l: "0 < length urls3" by (simp add: urls3_def)
  have j: "job_exception (world3 0 (urls3 ! 0)) =
      Some (TimeoutExpired ''Command timed out after 3600 seconds'')"
    by code_simp
  from download_multiple_fault_isolation [OF h, of False world3 "[1, 1]" empty_db urls3]
  obtain results calls where
    r: "download_multiple cfg2 False world3 [1, 1] empty_db urls3 = Inr (results, calls)" and
    f: "\<forall>i e. i < length urls3 \<and> job_exception (world3 i (urls3 ! i)) = Some e \<longrightarrow>
           failed None (error_text e) \<in> set results"
    by blast
  from r have "results = results3" unfolding download_multiple_three by simp
  moreover from f l j
  have "failed None (error_text (TimeoutExpired ''Command timed out after 3600 seconds'')) \<in> set results"
    by blast
  ultimately have "failed None ''Download timed out'' \<in> set results3"
    by (simp add: error_text_def)
  with h l j download_multiple_three show ?thesis by blast
qed


section \<open>The converter\<close>

text \<open>Without a supported image, and without a directory, the listing is empty.\<close>

lemma get_image_files_none:
  assumes "fs d = None \<or> (\<exists>entries. fs d = Some entries \<and> filter is_image entries = [])"
  shows "get_image_files fs d = Inr []"
  using assms by (auto simp: get_image_files_def sorted_key_def)

text \<open>
  C5. For a source directory that does not exist, or in which no entry is a file with a
  supported image suffix, \<open>convert_gallery\<close> with a format that reads \<open>pdf\<close> or \<open>cbz\<close> in
  lower case returns the result with \<open>success=False\<close>, no output path, a count of \<open>0\<close> and
  the message \<open>No image files found in directory\<close>, which is not empty.
\<close>

theorem convert_gallery_no_images:
  assumes "lower format_type = ''pdf'' \<or> lower format_type = ''cbz''"
    and "fs source_dir = None \<or>
         (\<exists>entries. fs source_dir = Some entries \<and> filter is_image entries = [])"
  shows "fst (convert_gallery assemble_pdf assemble_cbz fs source_dir format_type output_path
                delete_source quality) =
           \<lparr>cr_success = False, cr_output_path = None, cr_input_files_count = 0,
            cr_error_message = Some ''No image files found in directory''\<rparr>"
  using assms get_image_files_none [of fs source_dir]
  by (auto simp: convert_gallery_def convert_to_pdf_def convert_to_cbz_def
      no_images_def Let_def)

theorem convert_gallery_no_images_witness:
  "lower ''PDF'' = ''pdf'' \<and> filter is_image (the (fs_sample ''notes'')) = [] \<and> fs_sample ''notes'' \<noteq> None
   \<and> fst (convert_gallery assemble_ok assemble_ok fs_sample ''notes'' ''PDF'' None False None) =
       \<lparr>cr_success = False, cr_output_path = None, cr_input_files_count = 0,
        cr_error_message = Some ''No image files found in directory''\<rparr>
   \<and> lower ''cbz'' = ''cbz'' \<and> fs_sample ''nowhere'' = None
   \<and> fst (convert_gallery assemble_ok assemble_ok fs_sample ''nowhere'' ''cbz'' None True None) =
       \<lparr>cr_success = False, cr_output_path = None, cr_input_files_count = 0,
        cr_error_message = Some ''No image files found in directory''\<rparr>"
proof -
  have f1: "lower ''PDF'' = ''pdf''" by code_simp
  have f2: "lower ''cbz'' = ''cbz''" by code_simp
  have d1: "fs_sample ''notes'' \<noteq> None" by code_simp
  have d2: "filter is_image (the (fs_sample ''notes'')) = []" by code_simp
  have d3: "fs_sample ''nowhere'' = None" by code_simp
  from d1 d2 have d: "fs_sample ''notes'' = None \<or>
      (\<exists>entries. fs_sample ''notes'' = Some entries \<and> filter is_image entries = [])"
    by auto
  from convert_gallery_no_images [of "''PDF''" fs_sample "''notes''" assemble_ok assemble_ok None False None] f1 d
    convert_gallery_no_images [of "''cbz''" fs_sample "''nowhere''" assemble_ok assemble_ok None True None] f2 d3
    d1 d2
  show ?thesis by blast
qed

text \<open>
  C6. For a format whose lower-case form is neither \<open>pdf\<close> nor \<open>cbz\<close>, \<open>convert_gallery\<close>
  returns the result with \<open>success=False\<close>, a count of \<open>0\<close> and a message that names the
  format (in lower case), and makes no call to the file system.
\<close>

theorem convert_gallery_unsupported:
  assumes "lower format_type \<noteq> ''pdf''" and "lower format_type \<noteq> ''cbz''"
  shows "convert_gallery assemble_pdf assemble_cbz fs source_dir format_type output_path
           delete_source quality =
           (\<lparr>cr_success = False, cr_output_path = None, cr_input_files_count = 0,
             cr_error_message = Some (''Unsupported format: '' @ lower format_type)\<rparr>, [])"
  using assms by (simp add: convert_gallery_def Let_def)

theorem convert_gallery_unsupported_witness:
  "lower ''Epub'' \<noteq> ''pdf'' \<and> lower ''Epub'' \<noteq> ''cbz''
   \<and> convert_gallery assemble_ok assemble_ok fs_sample ''g'' ''Epub'' None True None =
       (\<lparr>cr_success = False, cr_output_path = None, cr_input_files_count = 0,
         cr_error_message = Some ''Unsupported format: epub''\<rparr>, [])"
proof -
  have l: "lower ''Epub'' = ''epub''" by code_simp
  then have h1: "lower ''Epub'' \<noteq> ''pdf''" and h2: "lower ''Epub'' \<noteq> ''cbz''" by simp_all
  from convert_gallery_unsupported [OF h1 h2, of assemble_ok assemble_ok fs_sample "''g''" None True None]
  show ?thesis using h1 h2 by (simp add: l)
qed

text \<open>A supported format does reach the file system.\<close>

lemma convert_gallery_reads: "snd (convert_gallery assemble_ok assemble_ok fs_sample ''g'' ''cbz'' None True None) \<noteq> []"
  by code_simp

section \<open>The natural sort\<close>

subsection \<open>Keys and their comparison\<close>

text \<open>
  Two keys in which strings and integers take turns from the same start are compared
  without a \<open>TypeError\<close>, and as the lists of their ranks are.
\<close>

lemma alternates_lt:
  "alternates b x \<Longrightarrow> alternates b y \<Longrightarrow> key_lt x y = Inr (map rank x < map rank y)"
proof (induction x y arbitrary: b rule: key_lt.induct)
  case (4 x xs y ys)
  show ?case
  proof (cases x)
    case (KInt n)
    with 4 obtain m where y: "y = KInt m" by (cases y) auto
    with KInt 4 show ?thesis by auto
  next
    case (KStr s)
    with 4 obtain t where y: "y = KStr t" by (cases y) auto
    with KStr 4 show ?thesis by auto
  qed
qed simp_all

text \<open>The pieces of a split have the shape described, and put together give the text back.\<close>

lemma re_split_digits_Nil:
  "dropWhile (\<lambda>c. \<not> is_decimal c) s = [] \<Longrightarrow> re_split_digits s = [s]"
  by (subst re_split_digits.simps) (simp only: list.case)

lemma re_split_digits_Cons:
  "dropWhile (\<lambda>c. \<not> is_decimal c) s = d # rest \<Longrightarrow>
     re_split_digits s =
       takeWhile (\<lambda>c. \<not> is_decimal c) s # takeWhile is_decimal (d # rest) #
         re_split_digits (dropWhile is_decimal (d # rest))"
  by (subst re_split_digits.simps) (simp only: list.case)

lemma pieces_ok_split: "pieces_ok (re_split_digits s)"
proof (induction s rule: re_split_digits.induct)
  case (1 s)
  show ?case
  proof (cases "dropWhile (\<lambda>c. \<not> is_decimal c) s")
    case Nil
    then have "\<forall>c \<in> set s. \<not> is_decimal c" by (simp add: dropWhile_eq_Nil_conv)
    then show ?thesis by (simp add: re_split_digits_Nil [OF Nil] list_ex_iff)
  next
    case (Cons d rest)
    have d: "is_decimal d"
      using Cons hd_dropWhile [of "\<lambda>c. \<not> is_decimal c" s] by simp
    have "\<forall>c \<in> set (takeWhile (\<lambda>c. \<not> is_decimal c) s). \<not> is_decimal c"
      using set_takeWhileD by fastforce
    moreover have "\<forall>c \<in> set (takeWhile is_decimal (d # rest)). is_decimal c"
      using set_takeWhileD by fastforce
    moreover have "takeWhile is_decimal (d # rest) \<noteq> []" using d by simp
    moreover have "pieces_ok (re_split_digits (dropWhile is_decimal (d # rest)))"
      using 1 Cons by simp
    ultimately show ?thesis
      by (simp add: re_split_digits_Cons [OF Cons] list_ex_iff list_all_iff
          del: takeWhile.simps dropWhile.simps)
  qed
qed

lemma concat_split: "concat (re_split_digits s) = s"
proof (induction s rule: re_split_digits.induct)
  case (1 s)
  show ?case
  proof (cases "dropWhile (\<lambda>c. \<not> is_decimal c) s")
    case Nil
    then show ?thesis by (simp add: re_split_digits_Nil)
  next
    case (Cons d rest)
    have "concat (re_split_digits s) =
        takeWhile (\<lambda>c. \<not> is_decimal c) s @ takeWhile is_decimal (d # rest) @
        concat (re_split_digits (dropWhile is_decimal (d # rest)))"
      by (simp add: re_split_digits_Cons [OF Cons] del: takeWhile.simps dropWhile.simps)
    also have "\<dots> = takeWhile (\<lambda>c. \<not> is_decimal c) s @ (d # rest)"
      using 1 [OF Cons] by (simp only: takeWhile_dropWhile_id)
    also have "\<dots> = s" using Cons [symmetric] by simp
    finally show ?thesis .
  qed
qed

text \<open>
  A piece without a decimal digit becomes a string when it becomes anything: \<open>int\<close>
  rejects it if \<open>isdigit\<close> lets it through. A run of decimal digits becomes its number.
\<close>

lemma key_part_of_text:
  "\<not> list_ex is_decimal p \<Longrightarrow> key_part_of p = Inr k \<Longrightarrow> k = KStr (lower p)"
  by (cases p) (auto simp: key_part_of_def py_int_def isdigit_def split: if_splits)

lemma key_part_of_digits:
  "d \<noteq> [] \<Longrightarrow> list_all is_decimal d \<Longrightarrow> key_part_of d = Inr (KInt (digits_value d))"
  by (auto simp: key_part_of_def py_int_def isdigit_def is_digit_def list_all_iff)

lemma keys_alternate:
  "pieces_ok ps \<Longrightarrow> sequence (map key_part_of ps) = Inr key \<Longrightarrow> alternates True key"
proof (induction ps arbitrary: key rule: pieces_ok.induct)
  case 1
  then show ?case by simp
next
  case (2 p)
  then show ?case by (auto split: sum.splits dest: key_part_of_text)
next
  case (3 p d ps)
  then show ?case
    by (auto split: sum.splits dest: key_part_of_text simp: key_part_of_digits)
qed

lemma natural_sort_key_alternates: "natural_sort_key name = Inr key \<Longrightarrow> alternates True key"
  unfolding natural_sort_key_def using keys_alternate [OF pieces_ok_split] .

lemma natural_order_key: "natural_sort_key name = Inr key \<Longrightarrow> natural_order name = map rank key"
  by (simp add: natural_order_def)

text \<open>
  The first half of C10: the keys of any two names, once built, are compared without an
  exception, and the comparison is that of the natural order.
\<close>

lemma natural_keys_comparable:
  assumes "natural_sort_key a = Inr ka" "natural_sort_key b = Inr kb"
  shows "key_lt ka kb = Inr (natural_order a < natural_order b)"
  using alternates_lt [OF natural_sort_key_alternates [OF assms(1)] natural_sort_key_alternates [OF assms(2)]]
  by (simp add: natural_order_key assms)

text \<open>Building a key raises nothing but the \<open>ValueError\<close> of \<open>int\<close>.\<close>

lemma natural_sort_key_raises:
  "natural_sort_key name = Inl e \<Longrightarrow> \<exists>m. e = ValueError m"
proof -
  have 1: "key_part_of p = Inl e \<Longrightarrow> \<exists>m. e = ValueError m" for p e
    by (auto simp: key_part_of_def py_int_def split: if_splits)
  have 2: "sequence (map key_part_of ps) = Inl e \<Longrightarrow> \<exists>m. e = ValueError m" for ps
    by (induction ps) (auto split: sum.splits dest: 1)
  show "natural_sort_key name = Inl e \<Longrightarrow> \<exists>m. e = ValueError m"
    unfolding natural_sort_key_def by (rule 2)
qed

text \<open>
  The key of a name can be built whenever every character of the name that \<open>isdigit\<close>
  accepts is a decimal digit; every ASCII name is such a name.
\<close>

lemma key_part_of_plain:
  assumes "list_all (\<lambda>c. is_decimal c \<or> \<not> is_digit c) p"
  shows "\<exists>k. key_part_of p = Inr k"
proof (cases "isdigit p")
  case True
  with assms have "p \<noteq> [] \<and> list_all is_decimal p" by (auto simp: isdigit_def list_all_iff)
  then show ?thesis by (simp add: key_part_of_def py_int_def True)
next
  case False
  then show ?thesis by (simp add: key_part_of_def)
qed

lemma sequence_all_Inr:
  "\<forall>r \<in> set rs. \<exists>v. r = Inr v \<Longrightarrow> \<exists>vs. sequence rs = Inr vs"
  by (induction rs) (auto split: sum.splits)

lemma sequence_Inr: "sequence rs = Inr vs \<Longrightarrow> rs = map Inr vs"
  by (induction rs arbitrary: vs) (auto split: sum.splits)

lemma sequence_Inl: "sequence rs = Inl e \<Longrightarrow> Inl e \<in> set rs"
  by (induction rs) (auto split: sum.splits)

lemma sequence_map_Inr:
  "sequence (map f xs) = Inr vs \<Longrightarrow> \<forall>x \<in> set xs. \<exists>v. f x = Inr v"
  by (induction xs arbitrary: vs) (auto split: sum.splits)

lemma plain_digits_key:
  assumes "plain_digits name"
  shows "\<exists>key. natural_sort_key name = Inr key"
proof -
  have "list_all (\<lambda>c. is_decimal c \<or> \<not> is_digit c) p" if "p \<in> set (re_split_digits name)" for p
  proof -
    from that have "set p \<subseteq> set (concat (re_split_digits name))" by auto
    then show ?thesis using assms by (auto simp: concat_split plain_digits_def list_all_iff)
  qed
  then have "\<forall>r \<in> set (map key_part_of (re_split_digits name)). \<exists>v. r = Inr v"
    using key_part_of_plain by auto
  then show ?thesis unfolding natural_sort_key_def by (rule sequence_all_Inr)
qed

subsection \<open>\<open>sorted\<close> is the stable sort by the natural order\<close>

lemma insort_lt_insort_key:
  assumes "alternates True (K x)" "\<forall>y \<in> set ys. alternates True (K y)"
  shows "insort_lt (K x, x) (map (\<lambda>y. (K y, y)) ys) =
         Inr (map (\<lambda>y. (K y, y)) (insort_key (\<lambda>y. map rank (K y)) x ys))"
  using assms(2)
proof (induction ys)
  case Nil
  then show ?case by simp
next
  case (Cons y ys)
  have "key_lt (K y) (K x) = Inr (map rank (K y) < map rank (K x))"
    using alternates_lt [of True "K y" "K x"] assms(1) Cons.prems by simp
  with Cons show ?case
    by (cases "map rank (K y) < map rank (K x)") (simp_all add: not_less [symmetric])
qed

lemma sort_lt_sort_key:
  assumes "\<forall>y \<in> set xs. alternates True (K y)"
  shows "sort_lt (map (\<lambda>y. (K y, y)) xs) = Inr (map (\<lambda>y. (K y, y)) (sort_key (\<lambda>y. map rank (K y)) xs))"
  using assms
proof (induction xs)
  case Nil
  then show ?case by simp
next
  case (Cons x xs)
  have "\<forall>y \<in> set (sort_key (\<lambda>y. map rank (K y)) xs). alternates True (K y)"
    using Cons.prems by simp
  with Cons show ?case by (simp add: insort_lt_insort_key)
qed

lemma sort_key_cong_set:
  "(\<And>x. x \<in> set xs \<Longrightarrow> f x = g x) \<Longrightarrow> sort_key f xs = sort_key g xs"
proof (induction xs)
  case Nil
  then show ?case by simp
next
  case (Cons x xs)
  have "insort_key f x ys = insort_key g x ys" if "set ys \<subseteq> set xs" for ys
    using that Cons.prems by (induction ys) auto
  with Cons show ?case by simp
qed

lemma sorted_key_natural:
  assumes "\<forall>x \<in> set xs. \<exists>key. natural_sort_key x = Inr key"
  shows "sorted_key natural_sort_key xs = Inr (sort_key natural_order xs)"
proof -
  define K where "K x = projr (natural_sort_key x)" for x
  have k: "natural_sort_key x = Inr (K x)" if "x \<in> set xs" for x
    using assms that by (auto simp: K_def)
  obtain ks where ks: "sequence (map natural_sort_key xs) = Inr ks"
    using sequence_all_Inr [of "map natural_sort_key xs"] assms by auto
  from sequence_Inr [OF this] have "map natural_sort_key xs = map Inr ks" .
  then have "map Inr ks = map (\<lambda>x. Inr (K x)) xs" using k by (auto simp: list_eq_iff_nth_eq)
  then have "ks = map K xs" by (auto simp: list_eq_iff_nth_eq)
  then have z: "zip ks xs = map (\<lambda>y. (K y, y)) xs" by (simp add: zip_map1 zip_same_conv_map)
  have a: "\<forall>y \<in> set xs. alternates True (K y)"
    using k natural_sort_key_alternates by blast
  have o: "sort_key (\<lambda>y. map rank (K y)) xs = sort_key natural_order xs"
    by (rule sort_key_cong_set) (simp add: natural_order_def k)
  show ?thesis
    by (simp add: sorted_key_def ks z sort_lt_sort_key [OF a] o comp_def)
qed

lemma sorted_key_raises:
  assumes "sorted_key natural_sort_key xs = Inl e"
  shows "\<exists>x \<in> set xs. natural_sort_key x = Inl e"
proof (cases "sequence (map natural_sort_key xs)")
  case (Inl e')
  with assms have "e' = e" by (simp add: sorted_key_def)
  with sequence_Inl [OF Inl] show ?thesis by auto
next
  case (Inr ks)
  from sorted_key_natural [OF sequence_map_Inr [OF this]] assms show ?thesis by simp
qed

subsection \<open>\<open>get_image_files\<close>\<close>

text \<open>
  When the key of every image name can be built, \<open>get_image_files\<close> returns the image
  names in the natural order, names of equal rank in the order of the listing: the
  result is sorted, and it is a rearrangement of the images of the directory.
\<close>

lemma get_image_files_sorts:
  assumes "fs directory = Some entries"
    and "\<forall>e \<in> set (filter is_image entries). \<exists>key. natural_sort_key (de_name e) = Inr key"
  shows "get_image_files fs directory =
           Inr (sort_key natural_order (map de_name (filter is_image entries)))"
  using assms by (simp add: get_image_files_def sorted_key_natural)

lemma get_image_files_sorted:
  assumes "get_image_files fs directory = Inr files"
  shows "sorted (map natural_order files)
         \<and> mset files =
             mset (case fs directory of None \<Rightarrow> []
                   | Some entries \<Rightarrow> map de_name (filter is_image entries))"
proof (cases "fs directory")
  case None
  with assms show ?thesis by (simp add: get_image_files_def)
next
  case (Some entries)
  let ?names = "map de_name (filter is_image entries)"
  from assms Some have s: "sorted_key natural_sort_key ?names = Inr files"
    by (simp add: get_image_files_def)
  then obtain ks where "sequence (map natural_sort_key ?names) = Inr ks"
    by (auto simp: sorted_key_def split: sum.splits)
  from sorted_key_natural [OF sequence_map_Inr [OF this]] s
  have "files = sort_key natural_order ?names" by simp
  then show ?thesis by (simp add: Some)
qed

text \<open>
  The second half of C10 fails for one reason only: \<open>get_image_files\<close> raises exactly
  what the key of one of the images raises, a \<open>ValueError\<close>, and never a \<open>TypeError\<close>.
\<close>

lemma get_image_files_raises:
  assumes "get_image_files fs directory = Inl e"
  shows "\<exists>entries name m. fs directory = Some entries \<and> name \<in> de_name ` set (filter is_image entries)
           \<and> natural_sort_key name = Inl e \<and> e = ValueError m \<and> \<not> plain_digits name"
proof (cases "fs directory")
  case None
  with assms show ?thesis by (simp add: get_image_files_def)
next
  case (Some entries)
  with assms have "sorted_key natural_sort_key (map de_name (filter is_image entries)) = Inl e"
    by (simp add: get_image_files_def)
  from sorted_key_raises [OF this] obtain name where
    n: "name \<in> de_name ` set (filter is_image entries)" "natural_sort_key name = Inl e"
    by auto
  from natural_sort_key_raises [OF n(2)] obtain m where "e = ValueError m" by blast
  moreover have "\<not> plain_digits name" using plain_digits_key [of name] n(2) by auto
  ultimately show ?thesis using Some n by blast
qed

text \<open>The example of C4: \<open>img10.png\<close>, \<open>img2.png\<close>, \<open>img1.png\<close> come back in natural order.\<close>

lemma get_image_files_example:
  "get_image_files fs_sample ''g'' = Inr [''img1.png'', ''img2.png'', ''img10.png'']"
  by code_simp

text \<open>
  C4 at a directory that holds \<open>img10.png\<close>, \<open>img2.png\<close> and a file named
  \<open>\<twosuperior>1.png\<close>: the split gives the pieces \<open>\<twosuperior>\<close>, \<open>1\<close> and \<open>.png\<close>; \<open>isdigit\<close>
  accepts the first, which \<open>int\<close> rejects, and \<open>get_image_files\<close> raises the
  \<open>ValueError\<close> instead of returning the sorted images.
\<close>

theorem get_image_files_squared_three:
  "get_image_files fs_squared ''three'' = Inl squared_error"
  by code_simp

text \<open>
  C10 at the name \<open>\<twosuperior>1.png\<close>: its key cannot be built, so \<open>get_image_files\<close> raises
  on the directory that holds this one image.
\<close>

theorem natural_sort_key_squared:
  "re_split_digits squared = [[CHR 0xB2], ''1'', ''.png''] \<and> isdigit [CHR 0xB2]
   \<and> natural_sort_key squared = Inl squared_error
   \<and> get_image_files fs_squared ''one'' = Inl squared_error"
  by code_simp

text \<open>The converter turns that exception into a failed result.\<close>

lemma convert_gallery_squared:
  "fst (convert_gallery assemble_ok assemble_ok fs_squared ''three'' ''pdf'' None False None) =
     \<lparr>cr_success = False, cr_output_path = None, cr_input_files_count = 0,
      cr_error_message = Some (exn_str squared_error)\<rparr>"
  by code_simp


section \<open>The list parser\<close>

text \<open>\<open>has_next\<close> always tells whether the current page is below \<open>total_pages\<close>.\<close>

lemma parse_gallery_list_has_next:
  "sr_has_next (parse_gallery_list page current_page) =
     (current_page < sr_total_pages (parse_gallery_list page current_page))"
  by (simp add: parse_gallery_list_def Let_def)



text \<open>From page 10 on, the same list is reported to have no next page.\<close>

lemma parse_gallery_list_page12:
  "sr_total_pages (parse_gallery_list page20 12) = 10
   \<and> \<not> sr_has_next (parse_gallery_list page20 12)"
  by code_simp


end
